theory Spec2Isabelle
  imports
    Complex_Main
    "HOL-Library.Multiset"
    "HOL-Library.Char_ord"
    "HOL-Library.List_Lexorder"
    "HOL-Library.Product_Lexorder"
    "HOL-Library.Sublist"
begin

section \<open>Python strings\<close>

text \<open>
  A Python \<open>str\<close> is modelled as a \<open>string\<close> holding its UTF-8 bytes. Every needle the
  program searches for is ASCII, and an ASCII byte never occurs inside a multi-byte UTF-8
  sequence, so \<open>needle in haystack\<close> on code points is \<^const>\<open>sublist\<close> on the bytes.
  The rupee sign U+20B9 and the arrow U+2192 are three bytes each.

  \<open>lower\<close>, \<open>upper\<close> and \<open>strip\<close> are modelled on ASCII: bytes from 0x80 on are left as they
  are and are not white space. Python's case mapping and white space of non-ASCII
  characters are outside this model.
\<close>

definition rupee :: string where
  "rupee = [CHR 0xE2, CHR 0x82, CHR 0xB9]"

definition arrow :: string where
  "arrow = [CHR 0xE2, CHR 0x86, CHR 0x92]"

definition lower_char :: "char \<Rightarrow> char" where
  "lower_char c = (if CHR ''A'' \<le> c \<and> c \<le> CHR ''Z'' then char_of (of_char c + (32::nat)) else c)"

definition upper_char :: "char \<Rightarrow> char" where
  "upper_char c = (if CHR ''a'' \<le> c \<and> c \<le> CHR ''z'' then char_of (of_char c - (32::nat)) else c)"

definition py_lower :: "string \<Rightarrow> string" where
  "py_lower s = map lower_char s"

definition py_upper :: "string \<Rightarrow> string" where
  "py_upper s = map upper_char s"

definition is_space :: "char \<Rightarrow> bool" where
  "is_space c = (c = CHR '' '' \<or> (CHR 0x09 \<le> c \<and> c \<le> CHR 0x0D) \<or> (CHR 0x1C \<le> c \<and> c \<le> CHR 0x1F))"

definition py_strip :: "string \<Rightarrow> string" where
  "py_strip s = rev (dropWhile is_space (rev (dropWhile is_space s)))"

text \<open>\<open>s.replace(old, new)\<close>: the occurrences of \<open>old\<close> are replaced from the left, without overlap.\<close>

function py_replace :: "string \<Rightarrow> string \<Rightarrow> string \<Rightarrow> string" where
  "py_replace old new s =
     (if old = [] then new @ concat (map (\<lambda>c. c # new) s)
      else if s = [] then []
      else if prefix old s then new @ py_replace old new (drop (length old) s)
      else hd s # py_replace old new (tl s))"
  by pat_completeness auto
termination
  by (relation "measure (\<lambda>(old, new, s). length s)") auto

declare py_replace.simps [simp del]

text \<open>
  \<open>float(s)\<close> on plain decimal notation: white space around, an optional sign, digits
  with an optional fractional part. \<open>None\<close> stands for \<open>ValueError\<close>. The value is the
  number denoted, as a real: rounding to a double (exact for the integers below \<open>2^53\<close>),
  exponent notation, digit-group underscores, \<open>inf\<close> and \<open>nan\<close> are outside this model.
\<close>

definition is_digit :: "char \<Rightarrow> bool" where
  "is_digit c = (CHR ''0'' \<le> c \<and> c \<le> CHR ''9'')"

definition digits_val :: "string \<Rightarrow> real" where
  "digits_val s = foldl (\<lambda>a c. 10 * a + of_nat (of_char c - (48::nat))) 0 s"

definition float_unsigned :: "string \<Rightarrow> real option" where
  "float_unsigned s =
     (let ip = takeWhile is_digit s; rest = dropWhile is_digit s in
      if rest = [] then (if ip = [] then None else Some (digits_val ip))
      else if hd rest = CHR ''.'' \<and> list_all is_digit (tl rest) \<and> (ip \<noteq> [] \<or> tl rest \<noteq> [])
        then Some (digits_val ip + digits_val (tl rest) / 10 ^ length (tl rest))
      else None)"

definition py_float :: "string \<Rightarrow> real option" where
  "py_float s =
     (case py_strip s of
        [] \<Rightarrow> None
      | c # cs \<Rightarrow>
          if c = CHR ''-'' then map_option uminus (float_unsigned cs)
          else if c = CHR ''+'' then float_unsigned cs
          else float_unsigned (c # cs))"

section \<open>Flight offers and the validator\<close>

text \<open>
  A flight offer is the dict the scraper builds. The record keeps what the optimizer
  reads: \<open>airline\<close> (\<open>flight.get("airline", "")\<close>, so an absent key is the empty string),
  \<open>price\<close> (a string when the key is present, \<open>None\<close> when it is absent: the two reads of
  it have different defaults), \<open>route\<close> (\<open>[]\<close> when absent), \<open>stops\<close> (the scraper's
  descriptor text, or a list of airport codes) and \<open>rendering\<close>, the text \<open>str(flight)\<close>
  of the whole dict.
\<close>

datatype stops_field = StopsText string | StopsList "string list"

record flight =
  airline :: string
  price :: "string option"
  route :: "string list"
  stops :: stops_field
  rendering :: string

definition parse_price :: "string \<Rightarrow> real" where
  "parse_price price_str =
     (if price_str = [] \<or> price_str = ''N/A'' then 999999
      else (case py_float (py_strip (py_replace '','' [] (py_replace rupee [] price_str))) of
              None \<Rightarrow> 999999
            | Some v \<Rightarrow> v))"

definition turkish_airlines_names :: "string list" where
  "turkish_airlines_names = [''turkish airlines'', ''turkish'', ''thy'', ''tk'']"

definition is_turkish :: "string \<Rightarrow> bool" where
  "is_turkish a =
     (let airline_lower = py_strip (py_lower a)
      in list_ex (\<lambda>name. sublist name airline_lower) turkish_airlines_names)"

definition all_airports :: "flight \<Rightarrow> string list" where
  "all_airports f = route f @ (case stops f of StopsList l \<Rightarrow> l | StopsText _ \<Rightarrow> [])"

definition has_ist :: "flight \<Rightarrow> bool" where
  "has_ist f =
     (let flight_str = py_upper (rendering f)
      in ''IST'' \<in> set (all_airports f) \<or> sublist ''IST'' flight_str \<or> sublist ''ISTANBUL'' flight_str)"

fun filter_turkish_airlines_flights :: "flight list \<Rightarrow> flight list" where
  "filter_turkish_airlines_flights [] = []"
| "filter_turkish_airlines_flights (f # fs) =
     (if airline f = [] then filter_turkish_airlines_flights fs
      else if sublist '','' (airline f) \<or> sublist '' + '' (airline f) \<or> sublist ''/'' (airline f)
        then filter_turkish_airlines_flights fs
      else if \<not> is_turkish (airline f) then filter_turkish_airlines_flights fs
      else if \<not> has_ist f then filter_turkish_airlines_flights fs
      else f # filter_turkish_airlines_flights fs)"


text \<open>The four tests of the validator's loop in one predicate: an offer is kept when it passes all.\<close>

definition accepted :: "flight \<Rightarrow> bool" where
  "accepted f =
     (airline f \<noteq> []
      \<and> \<not> (sublist '','' (airline f) \<or> sublist '' + '' (airline f) \<or> sublist ''/'' (airline f))
      \<and> is_turkish (airline f) \<and> has_ist f)"

text \<open>\<open>min(xs, key=k)\<close>: the first element whose key is minimal; \<open>ValueError\<close> on an empty list.\<close>

fun py_min :: "('a \<Rightarrow> real) \<Rightarrow> 'a list \<Rightarrow> 'a option" where
  "py_min k [] = None"
| "py_min k (x # xs) = Some (foldl (\<lambda>best y. if k y < k best then y else best) x xs)"

definition price_or :: "string \<Rightarrow> flight \<Rightarrow> string" where
  "price_or dflt x = (case price x of None \<Rightarrow> dflt | Some p \<Rightarrow> p)"

text \<open>
  The selection of the cheapest offer in \<open>search_route_flights\<close>:
  \<open>min(valid_flights, key=lambda x: self.parse_price(x.get("price", d)))\<close>, where the default
  \<open>d\<close> is the rupee sign followed by \<open>999,999\<close>.
\<close>

definition cheapest_of :: "flight list \<Rightarrow> flight option" where
  "cheapest_of valid_flights = py_min (\<lambda>x. parse_price (price_or (rupee @ ''999,999'') x)) valid_flights"

section \<open>Routes, signatures and the progress store\<close>

text \<open>
  The enumerator builds a dict of three keys for every eligible city and a stop from it by
  adding the continent: the stop record extends the city record.
\<close>

record city_info =
  country_code :: string
  city :: string
  easy_visa :: bool

record stop = city_info +
  continent :: string

definition airport_mapping :: "(string \<times> string) list" where
  "airport_mapping = [
    (''Delhi'', ''DEL''), (''Mumbai'', ''BOM''), (''Hyderabad'', ''HYD''),
    (''Bangalore'', ''BLR''), (''Dubai'', ''DXB''), (''Abu Dhabi'', ''AUH''),
    (''Singapore'', ''SIN''), (''Bangkok'', ''BKK''), (''Phuket'', ''HKT''),
    (''Istanbul'', ''IST''), (''Ankara'', ''ESB''), (''Jakarta'', ''CGK''),
    (''Bali'', ''DPS''), (''Doha'', ''DOH''), (''Kuala Lumpur'', ''KUL''),
    (''Dhaka'', ''DAC''), (''Colombo'', ''CMB''), (''Male'', ''MLE''),
    (''Beijing'', ''PEK''), (''Shanghai'', ''PVG''), (''Tokyo'', ''NRT''),
    (''Osaka'', ''KIX''), (''Seoul'', ''ICN''), (''Manila'', ''MNL''),
    (''Ho Chi Minh City'', ''SGN''), (''Hanoi'', ''HAN''), (''Riyadh'', ''RUH''),
    (''Jeddah'', ''JED''), (''Kuwait City'', ''KWI''), (''Manama'', ''BAH''),
    (''Muscat'', ''MCT''), (''Beirut'', ''BEY''), (''Kabul'', ''KBL''),
    (''Almaty'', ''ALA''), (''Tashkent'', ''TAS''), (''Bishkek'', ''FRU''),
    (''Ashgabat'', ''ASB''), (''Ulaanbaatar'', ''ULN''), (''Kathmandu'', ''KTM''),
    (''Frankfurt'', ''FRA''), (''Munich'', ''MUC''), (''Berlin'', ''BER''),
    (''Paris'', ''CDG''), (''Lyon'', ''LYS''), (''Amsterdam'', ''AMS''),
    (''Rome'', ''FCO''), (''Milan'', ''MXP''), (''Madrid'', ''MAD''),
    (''Barcelona'', ''BCN''), (''London'', ''LHR''), (''Manchester'', ''MAN''),
    (''Moscow'', ''SVO''), (''Saint Petersburg'', ''LED''), (''Vienna'', ''VIE''),
    (''Brussels'', ''BRU''), (''Zurich'', ''ZUR''), (''Geneva'', ''GVA''),
    (''Stockholm'', ''ARN''), (''Oslo'', ''OSL''), (''Copenhagen'', ''CPH''),
    (''Helsinki'', ''HEL''), (''Warsaw'', ''WAW''), (''Krakow'', ''KRK''),
    (''Prague'', ''PRG''), (''Budapest'', ''BUD''), (''Athens'', ''ATH''),
    (''Lisbon'', ''LIS''), (''Bucharest'', ''OTP''), (''Sofia'', ''SOF''),
    (''Zagreb'', ''ZAG''), (''Belgrade'', ''BEG''), (''Sarajevo'', ''SJJ''),
    (''Podgorica'', ''TGD''), (''Ljubljana'', ''LJU''), (''Skopje'', ''SKP''),
    (''Baku'', ''GYD''), (''Tbilisi'', ''TBS''), (''Chisinau'', ''KIV''),
    (''Tallinn'', ''TLL''), (''Riga'', ''RIX''), (''Vilnius'', ''VNO''),
    (''Luxembourg'', ''LUX''), (''Valletta'', ''MLA''), (''Dublin'', ''DUB''),
    (''Cairo'', ''CAI''), (''Alexandria'', ''HBE''), (''Nairobi'', ''NBO''),
    (''Johannesburg'', ''JNB''), (''Cape Town'', ''CPT''), (''Casablanca'', ''CMN''),
    (''Marrakech'', ''RAK''), (''Tunis'', ''TUN''), (''Algiers'', ''ALG''),
    (''Tripoli'', ''TIP''), (''Addis Ababa'', ''ADD''), (''Accra'', ''ACC''),
    (''Lagos'', ''LOS''), (''Abuja'', ''ABV''), (''Dakar'', ''DKR''),
    (''Abidjan'', ''ABJ''), (''Douala'', ''DLA''), (''Kinshasa'', ''FIH''),
    (''Luanda'', ''LAD''), (''Kampala'', ''EBB''), (''Dar es Salaam'', ''DAR''),
    (''Kigali'', ''KGL''), (''Port Louis'', ''MRU''), (''Antananarivo'', ''TNR''),
    (''New York'', ''JFK''), (''Los Angeles'', ''LAX''), (''Chicago'', ''ORD''),
    (''Miami'', ''MIA''), (''San Francisco'', ''SFO''), (''Washington DC'', ''DCA''),
    (''Seattle'', ''SEA''), (''Boston'', ''BOS''), (''Toronto'', ''YYZ''),
    (''Montreal'', ''YUL''), (''Vancouver'', ''YVR''), (''Mexico City'', ''MEX''),
    (''Cancun'', ''CUN''), (''Havana'', ''HAV''), (''Panama City'', ''PTY''),
    (''Sao Paulo'', ''GRU''), (''Rio de Janeiro'', ''GIG''), (''Buenos Aires'', ''EZE''),
    (''Bogota'', ''BOG''), (''Medellin'', ''MDE''), (''Santiago'', ''SCL''),
    (''Caracas'', ''CCS''), (''Melbourne'', ''MEL''), (''Sydney'', ''SYD''),
    (''Perth'', ''PER'')
   ]"

definition city_to_airport_code :: "string \<Rightarrow> string \<Rightarrow> string" where
  "city_to_airport_code cty cc =
     (case map_of airport_mapping cty of Some code \<Rightarrow> code | None \<Rightarrow> py_upper (take 3 cty))"

text \<open>
  The Python values the progress tracking handles: strings, tuples and lists. A list is
  not hashable, and a tuple is hashable when all its items are. \<open>json.dump\<close> writes a
  tuple as an array, and \<open>json.load\<close> reads every array back as a list.
\<close>

datatype pyval = PStr string | PTuple "pyval list" | PList "pyval list"

fun hashable :: "pyval \<Rightarrow> bool" where
  "hashable (PStr s) = True"
| "hashable (PTuple xs) = list_all hashable xs"
| "hashable (PList xs) = False"

fun json_roundtrip :: "pyval \<Rightarrow> pyval" where
  "json_roundtrip (PStr s) = PStr s"
| "json_roundtrip (PTuple xs) = PList (map json_roundtrip xs)"
| "json_roundtrip (PList xs) = PList (map json_roundtrip xs)"

text \<open>\<open>tuple(v)\<close>: the items of \<open>v\<close>, one level deep.\<close>

fun py_tuple :: "pyval \<Rightarrow> pyval" where
  "py_tuple (PStr s) = PTuple (map (\<lambda>c. PStr [c]) s)"
| "py_tuple (PTuple xs) = PTuple xs"
| "py_tuple (PList xs) = PTuple xs"

definition route_to_signature :: "stop list \<Rightarrow> pyval" where
  "route_to_signature r =
     PTuple (map (\<lambda>(c, cc, ct). PTuple [PStr c, PStr cc, PStr ct])
                 (sort (map (\<lambda>s. (city s, country_code s, continent s)) r)))"

record segment_result =
  segment :: string
  origin :: string
  destination :: string
  seg_flight :: flight

record itinerary =
  route_index :: nat
  itinerary_route :: "stop list"
  flights :: "segment_result list"
  total_cost_inr :: "real option"
  status :: string

text \<open>
  A JSON file on disk: absent, present but not parseable, or holding a value. For the
  progress file the value is what \<open>json.load\<close> returns under the key
  \<open>completed_routes\<close>; for the results file it is the list of records. The fields
  \<open>total_cost_formatted\<close>, \<open>thread_id\<close> and \<open>completed_at\<close> of a result and
  \<open>last_updated\<close>, \<open>total_completed\<close> of the progress file are never read back by the
  program and are left out. \<open>total_cost_inr\<close> is \<open>None\<close> for a record without that key.
\<close>

datatype 'a json_file = Missing | Unreadable | Contents 'a

text \<open>
  The optimizer object together with the two files it owns. \<open>completed_routes\<close> is the
  Python set, kept as a list without duplicates; \<open>discarded_count\<close> is \<open>None\<close> until the
  attribute is created. \<open>queries\<close> logs the arguments of every call of
  \<open>scraper.search\<close>; it is the only field that is not in the source.
\<close>

record optimizer =
  max_routes_to_search :: nat
  completed_count :: nat
  failed_count :: nat
  discarded_count :: "nat option"
  completed_routes :: "pyval list"
  progress_file :: "pyval list json_file"
  results_file :: "itinerary list json_file"
  queries :: "(string \<times> string) list"

text \<open>
  \<open>set(tuple(sig) for sig in ...)\<close> raises \<open>TypeError\<close> when one of the tuples is not
  hashable; the handler of \<open>load_existing_progress\<close> then resets the set to empty.
\<close>

definition load_existing_progress :: "pyval list json_file \<Rightarrow> pyval list" where
  "load_existing_progress pf =
     (case pf of
        Missing \<Rightarrow> []
      | Unreadable \<Rightarrow> []
      | Contents sigs \<Rightarrow>
          (let tuples = map py_tuple sigs
           in if list_all hashable tuples then remdups tuples else []))"

definition init_optimizer ::
  "nat \<Rightarrow> pyval list json_file \<Rightarrow> itinerary list json_file \<Rightarrow> optimizer" where
  "init_optimizer max_routes pf rf =
     \<lparr> max_routes_to_search = max_routes, completed_count = 0, failed_count = 0,
       discarded_count = None, completed_routes = load_existing_progress pf,
       progress_file = pf, results_file = rf, queries = [] \<rparr>"

text \<open>Writing a file is taken to succeed (the source logs a failed write and goes on).\<close>

definition save_progress :: "pyval \<Rightarrow> optimizer \<Rightarrow> optimizer" where
  "save_progress route_signature st =
     (let cr = List.insert route_signature (completed_routes st)
      in st\<lparr> completed_routes := cr, progress_file := Contents (map json_roundtrip cr) \<rparr>)"

definition cost_key :: "itinerary \<Rightarrow> real" where
  "cost_key x = (case total_cost_inr x of None \<Rightarrow> 999999 | Some c \<Rightarrow> c)"

definition save_result_to_file :: "itinerary \<Rightarrow> optimizer \<Rightarrow> optimizer" where
  "save_result_to_file result st =
     (let existing_results = (case results_file st of Contents l \<Rightarrow> l | _ \<Rightarrow> [])
      in st\<lparr> results_file := Contents (sort_key cost_key (existing_results @ [result])) \<rparr>)"

definition is_route_completed :: "optimizer \<Rightarrow> stop list \<Rightarrow> bool" where
  "is_route_completed st r = (route_to_signature r \<in> set (completed_routes st))"

definition update_progress :: "bool \<Rightarrow> bool \<Rightarrow> optimizer \<Rightarrow> optimizer" where
  "update_progress success discarded st =
     (if success then st\<lparr> completed_count := completed_count st + 1 \<rparr>
      else if discarded then
        st\<lparr> discarded_count := Some ((case discarded_count st of None \<Rightarrow> 0 | Some n \<Rightarrow> n) + 1) \<rparr>
      else st\<lparr> failed_count := failed_count st + 1 \<rparr>)"


section \<open>The search of one route\<close>

text \<open>
  The Segment Query Client: \<open>scraper.search(origin, destination, date, passengers=1)\<close>
  either raises or returns a dict from category names to lists of flight offers (in
  insertion order). The date is the same in every call.
\<close>

datatype response = Raises | Returns "(string \<times> flight list) list"

type_synonym scraper = "string \<Rightarrow> string \<Rightarrow> response"

definition gather_flights :: "(string \<times> flight list) list \<Rightarrow> flight list" where
  "gather_flights flight_results =
     (let all_flights =
            concat (map (\<lambda>key. case map_of flight_results key of None \<Rightarrow> [] | Some fl \<Rightarrow> fl)
                        [''top_flights'', ''all_flights''])
      in if all_flights = [] then concat (map snd flight_results) else all_flights)"

definition origin_code_of :: "stop list \<Rightarrow> nat \<Rightarrow> string" where
  "origin_code_of r i = city_to_airport_code (city (r ! i)) (country_code (r ! i))"

definition dest_code_of :: "stop list \<Rightarrow> nat \<Rightarrow> string" where
  "dest_code_of r i = city_to_airport_code (city (r ! (i + 1))) (country_code (r ! (i + 1)))"

text \<open>
  The loop \<open>for i in range(len(route) - 1)\<close> of \<open>search_route_flights\<close>, from segment \<open>i\<close>
  on. Every early \<open>return None\<close> of the source is a \<open>None\<close> here: the scraper raising (the
  inner handler), no offer at all, and no offer left by the validator. The rate-limit
  sleep and the console output are not modelled.
\<close>

function search_segments ::
  "scraper \<Rightarrow> stop list \<Rightarrow> nat \<Rightarrow> segment_result list \<Rightarrow> real \<Rightarrow> optimizer
     \<Rightarrow> (segment_result list \<times> real) option \<times> optimizer" where
  "search_segments scraper r i route_flights total_cost st =
     (if i + 1 < length r then
        (let origin_code = origin_code_of r i;
             dest_code = dest_code_of r i;
             st1 = st\<lparr> queries := queries st @ [(origin_code, dest_code)] \<rparr>
         in case scraper origin_code dest_code of
              Raises \<Rightarrow> (None, save_progress (route_to_signature r) st1)
            | Returns flight_results \<Rightarrow>
                (let all_flights = gather_flights flight_results
                 in if all_flights \<noteq> [] then
                      (let valid_flights = filter_turkish_airlines_flights all_flights
                       in if valid_flights \<noteq> [] then
                            (case cheapest_of valid_flights of
                               None \<Rightarrow> (None, save_progress (route_to_signature r) st1)
                             | Some cheapest \<Rightarrow>
                                 search_segments scraper r (i + 1)
                                   (route_flights @
                                      [\<lparr> segment = city (r ! i) @ '' '' @ arrow @ '' '' @ city (r ! (i + 1)),
                                         origin = origin_code, destination = dest_code,
                                         seg_flight = cheapest \<rparr>])
                                   (total_cost + parse_price (price_or (rupee @ ''0'') cheapest))
                                   st1)
                          else (None, save_progress (route_to_signature r) st1))
                    else (None, save_progress (route_to_signature r) st1)))
      else (Some (route_flights, total_cost), st))"
  by pat_completeness auto
termination
  by (relation "measure (\<lambda>(scraper, r, i, route_flights, total_cost, st). length r - i)") auto

declare search_segments.simps [simp del]

text \<open>
  \<open>search_route_flights\<close>. The outer \<open>except\<close> of the source has no branch here: on a
  route of well-formed stops nothing in the outer \<open>try\<close> raises outside the inner one,
  whose handler catches every exception of the segment query and of the validator.
\<close>

definition search_route_flights ::
  "scraper \<Rightarrow> stop list \<Rightarrow> nat \<Rightarrow> optimizer \<Rightarrow> itinerary option \<times> optimizer" where
  "search_route_flights scraper r idx st =
     (case search_segments scraper r 0 [] 0 st of
        (None, st') \<Rightarrow> (None, st')
      | (Some (route_flights, total_cost), st') \<Rightarrow>
          (let result = \<lparr> route_index = idx, itinerary_route = r, flights = route_flights,
                          total_cost_inr = Some total_cost,
                          status = ''complete_with_all_turkish_flights'' \<rparr>
           in (Some result,
               update_progress True False
                 (save_progress (route_to_signature r) (save_result_to_file result st')))))"

text \<open>
  \<open>worker_search_route\<close>: a fresh scraper per route (its constructor only stores two
  fields), and a \<open>None\<close> result counted as discarded.
\<close>

definition worker_search_route ::
  "scraper \<Rightarrow> stop list \<times> nat \<Rightarrow> optimizer \<Rightarrow> itinerary option \<times> optimizer" where
  "worker_search_route scraper args st =
     (case search_route_flights scraper (fst args) (snd args) st of
        (None, st') \<Rightarrow> (None, update_progress False True st')
      | (Some result, st') \<Rightarrow> (Some result, st'))"

section \<open>The run over all routes\<close>

definition pending_routes :: "optimizer \<Rightarrow> stop list list \<Rightarrow> (stop list \<times> nat) list" where
  "pending_routes st routes =
     map (\<lambda>(i, r). (r, i + 1))
         (filter (\<lambda>(i, r). \<not> is_route_completed st r)
                 (enumerate 0 (take (max_routes_to_search st) routes)))"

definition read_results :: "itinerary list \<Rightarrow> optimizer \<Rightarrow> itinerary list option" where
  "read_results dflt st =
     (case results_file st of Missing \<Rightarrow> Some dflt | Unreadable \<Rightarrow> None | Contents l \<Rightarrow> Some l)"

text \<open>
  \<open>search_all_routes_parallel\<close>. The thread pool is modelled by the schedule that runs
  the pending routes one after the other, in submission order; every update of the
  shared state is made under a lock in the source. The result is \<open>None\<close> when
  \<open>json.load\<close> of the results file raises at the end.
\<close>

definition run_pending ::
  "scraper \<Rightarrow> (stop list \<times> nat) list \<Rightarrow> itinerary list \<times> optimizer \<Rightarrow> itinerary list \<times> optimizer" where
  "run_pending scraper pending start =
     foldl (\<lambda>(results, s) args.
              case worker_search_route scraper args s of
                (None, s') \<Rightarrow> (results, s')
              | (Some result, s') \<Rightarrow> (results @ [result], s'))
           start pending"

definition search_all_routes_parallel ::
  "scraper \<Rightarrow> stop list list \<Rightarrow> optimizer \<Rightarrow> itinerary list option \<times> optimizer" where
  "search_all_routes_parallel scraper routes st =
     (let pending = pending_routes st routes
      in if pending = [] then (read_results [] st, st)
         else (let (results, st') = run_pending scraper pending ([], st)
               in (read_results results st', st')))"

section \<open>Outcomes of a segment\<close>

text \<open>
  What the query of segment \<open>j\<close> of a route gives: an offer that survives the validator,
  a result with no surviving offer (an empty result included), or an exception.
  \<open>segment_queries r i k\<close> are the calls for the segments \<open>i\<close> to \<open>k - 1\<close>, and
  \<open>total_processed\<close> is the sum that \<open>update_progress\<close> computes.
\<close>

definition segment_ok :: "scraper \<Rightarrow> stop list \<Rightarrow> nat \<Rightarrow> bool" where
  "segment_ok scraper r j =
     (case scraper (origin_code_of r j) (dest_code_of r j) of
        Raises \<Rightarrow> False
      | Returns flight_results \<Rightarrow> filter_turkish_airlines_flights (gather_flights flight_results) \<noteq> [])"

definition segment_unusable :: "scraper \<Rightarrow> stop list \<Rightarrow> nat \<Rightarrow> bool" where
  "segment_unusable scraper r j =
     (case scraper (origin_code_of r j) (dest_code_of r j) of
        Raises \<Rightarrow> False
      | Returns flight_results \<Rightarrow> filter_turkish_airlines_flights (gather_flights flight_results) = [])"

definition segment_raises :: "scraper \<Rightarrow> stop list \<Rightarrow> nat \<Rightarrow> bool" where
  "segment_raises scraper r j = (scraper (origin_code_of r j) (dest_code_of r j) = Raises)"

definition segment_queries :: "stop list \<Rightarrow> nat \<Rightarrow> nat \<Rightarrow> (string \<times> string) list" where
  "segment_queries r i k = map (\<lambda>j. (origin_code_of r j, dest_code_of r j)) [i..<k]"

definition total_processed :: "optimizer \<Rightarrow> nat" where
  "total_processed st =
     completed_count st + (case discarded_count st of None \<Rightarrow> 0 | Some n \<Rightarrow> n) + failed_count st"


text \<open>\<open>getattr(self, 'discarded_count', 0)\<close>.\<close>

definition discarded_so_far :: "optimizer \<Rightarrow> nat" where
  "discarded_so_far st = (case discarded_count st of None \<Rightarrow> 0 | Some n \<Rightarrow> n)"

text \<open>
  A new process over the files an earlier one left: the constructor of the optimizer
  loads the progress file. \<open>stored_results\<close> is the list in the results file.
\<close>

definition restart :: "optimizer \<Rightarrow> optimizer" where
  "restart st = init_optimizer (max_routes_to_search st) (progress_file st) (results_file st)"

definition stored_results :: "optimizer \<Rightarrow> itinerary list" where
  "stored_results st = (case results_file st of Contents l \<Rightarrow> l | _ \<Rightarrow> [])"

section \<open>Reference data and the route enumerator\<close>

text \<open>
  The three lookups of \<open>utils.py\<close>. A Python dict is a list of pairs in insertion order
  (its keys are distinct), the set of easy-visa countries is a list of its members.
\<close>

definition get_eligible_country_list :: "(string \<times> string list) list" where
  "get_eligible_country_list = [
     (''Europe'', [
        ''DE'', ''AT'', ''AZ'', ''BE'', ''GB'', ''BA'', ''BG'', ''CZ'', ''DK'', ''EE'',
        ''FI'', ''FR'', ''GE'', ''HR'', ''NL'', ''IE'', ''ES'', ''SE'', ''CH'', ''IT'',
        ''ME'', ''XK'', ''LV'', ''LT'', ''LU'', ''HU'', ''MK'', ''MT'', ''MD'', ''NO'',
        ''PL'', ''PT'', ''RO'', ''RU'', ''RS'', ''SI'', ''GR'']),
     (''North America'', [
        ''US'', ''CA'', ''CU'', ''MX'', ''PA'']),
     (''South America'', [
        ''AR'', ''BR'', ''CO'', ''CL'', ''VE'']),
     (''Asia'', [
        ''AF'', ''BH'', ''BD'', ''AE'', ''CN'', ''ID'', ''PH'', ''KR'', ''IN'', ''IQ'',
        ''IR'', ''JP'', ''QA'', ''KZ'', ''KG'', ''KW'', ''LB'', ''MV'', ''MY'', ''MN'',
        ''NP'', ''UZ'', ''PK'', ''SG'', ''LK'', ''SY'', ''SA'', ''TH'', ''TM'', ''OM'',
        ''JO'', ''VN'', ''TR'']),
     (''Africa'', [
        ''AO'', ''BJ'', ''BF'', ''DZ'', ''DJ'', ''TD'', ''CD'', ''ER'', ''ET'', ''MA'',
        ''CI'', ''GA'', ''GM'', ''GH'', ''GN'', ''ZA'', ''SS'', ''CM'', ''KE'', ''CG'',
        ''LY'', ''MG'', [CHR ''M'', CHR ''L''], ''MU'', ''EG'', ''MR'', ''MZ'', ''NE'', ''NG'', ''RW'',
        ''SN'', ''SL'', ''SO'', ''TZ'', ''TN'', ''UG'', ''ZM'']),
     (''Oceania'', [
        ''AU''])
   ]"

definition REQUIRED_CONTINENTS :: "string list" where
  "REQUIRED_CONTINENTS = [''Asia'', ''Europe'', ''Africa'', ''North America'', ''South America'', ''Oceania'']"

definition COUNTRY_MAJOR_CITIES :: "(string \<times> string list) list" where
  "COUNTRY_MAJOR_CITIES = [
     (''IN'', [''Delhi'', ''Mumbai'']), (''AE'', [''Dubai'', ''Abu Dhabi'']),
     (''SG'', [''Singapore'']), (''TH'', [''Bangkok'', ''Phuket'']),
     (''TR'', [''Istanbul'']), (''ID'', [''Jakarta'', ''Bali'']), (''QA'', [''Doha'']),
     (''MY'', [''Kuala Lumpur'']), (''BD'', [''Dhaka'']), (''LK'', [''Colombo'']),
     (''MV'', [''Male'']), (''CN'', [''Beijing'', ''Shanghai'']),
     (''JP'', [''Tokyo'', ''Osaka'']), (''KR'', [''Seoul'']), (''PH'', [''Manila'']),
     (''VN'', [''Ho Chi Minh City'', ''Hanoi'']), (''SA'', [''Riyadh'', ''Jeddah'']),
     (''KW'', [''Kuwait City'']), (''BH'', [''Manama'']), (''OM'', [''Muscat'']),
     (''LB'', [''Beirut'']), (''AF'', [''Kabul'']), (''KZ'', [''Almaty'']),
     (''UZ'', [''Tashkent'']), (''KG'', [''Bishkek'']), (''TM'', [''Ashgabat'']),
     (''MN'', [''Ulaanbaatar'']), (''DE'', [''Frankfurt'', ''Munich'', ''Berlin'']),
     (''FR'', [''Paris'', ''Lyon'']), (''NL'', [''Amsterdam'']),
     (''IT'', [''Rome'', ''Milan'']), (''ES'', [''Madrid'', ''Barcelona'']),
     (''GB'', [''London'', ''Manchester'']), (''RU'', [''Moscow'', ''Saint Petersburg'']),
     (''AT'', [''Vienna'']), (''BE'', [''Brussels'']), (''CH'', [''Zurich'', ''Geneva'']),
     (''SE'', [''Stockholm'']), (''NO'', [''Oslo'']), (''DK'', [''Copenhagen'']),
     (''FI'', [''Helsinki'']), (''PL'', [''Warsaw'', ''Krakow'']), (''CZ'', [''Prague'']),
     (''HU'', [''Budapest'']), (''GR'', [''Athens'']), (''PT'', [''Lisbon'']),
     (''RO'', [''Bucharest'']), (''BG'', [''Sofia'']), (''HR'', [''Zagreb'']),
     (''RS'', [''Belgrade'']), (''BA'', [''Sarajevo'']), (''ME'', [''Podgorica'']),
     (''SI'', [''Ljubljana'']), (''MK'', [''Skopje'']), (''AZ'', [''Baku'']),
     (''GE'', [''Tbilisi'']), (''MD'', [''Chisinau'']), (''EE'', [''Tallinn'']),
     (''LV'', [''Riga'']), (''LT'', [''Vilnius'']), (''LU'', [''Luxembourg'']),
     (''MT'', [''Valletta'']), (''IE'', [''Dublin'']),
     (''EG'', [''Cairo'', ''Alexandria'']), (''KE'', [''Nairobi'']),
     (''ZA'', [''Johannesburg'', ''Cape Town'']),
     (''MA'', [''Casablanca'', ''Marrakech'']), (''TN'', [''Tunis'']),
     (''DZ'', [''Algiers'']), (''LY'', [''Tripoli'']), (''ET'', [''Addis Ababa'']),
     (''GH'', [''Accra'']), (''NG'', [''Lagos'', ''Abuja'']), (''SN'', [''Dakar'']),
     (''CI'', [''Abidjan'']), (''CM'', [''Douala'']), (''CD'', [''Kinshasa'']),
     (''AO'', [''Luanda'']), (''UG'', [''Kampala'']), (''TZ'', [''Dar es Salaam'']),
     (''RW'', [''Kigali'']), (''MU'', [''Port Louis'']),
     (''US'', [''New York'', ''Los Angeles'', ''Chicago'', ''Miami'', ''San Francisco'', ''Washington DC'', ''Seattle'', ''Boston'']),
     (''CA'', [''Toronto'', ''Montreal'', ''Vancouver'']),
     (''MX'', [''Mexico City'', ''Cancun'']), (''PA'', [''Panama City'']),
     (''BR'', [''Sao Paulo'', ''Rio de Janeiro'']), (''AR'', [''Buenos Aires'']),
     (''CO'', [''Bogota'', ''Medellin'']), (''CL'', [''Santiago'']),
     (''VE'', [''Caracas'']), (''AU'', [''Melbourne'', ''Sydney''])
   ]"

definition EASY_VISA_COUNTRIES :: "string list" where
  "EASY_VISA_COUNTRIES = [
     ''IN'', ''AE'', ''QA'', ''ID'', ''TH'', ''MY'', ''SG'', ''LK'', ''MV'', ''TR'',
     ''GE'', ''KE'', ''EG'', ''MU'', ''BR'', ''AR'', ''CU'', ''CO'', ''BA'', ''RS'',
     ''ME'', ''MK'', ''MD'', ''AU'', ''UZ'', ''ZA'', ''MA'', ''AZ'', ''CA'', ''MX''
   ]"

text \<open>
  The enumerator reads the three lookups through the module; here they are one argument,
  so that other reference data can be stated. \<open>utils\<close> is the data of the repository.
\<close>

record reference_data =
  eligible_countries :: "(string \<times> string list) list"
  major_cities :: "(string \<times> string list) list"
  easy_visa_countries :: "string list"

definition utils :: reference_data where
  "utils = \<lparr> eligible_countries = get_eligible_country_list,
             major_cities = COUNTRY_MAJOR_CITIES,
             easy_visa_countries = EASY_VISA_COUNTRIES \<rparr>"

definition NUM_CONTINENTS :: nat where
  "NUM_CONTINENTS = 6"

definition MAX_ROUTES :: nat where
  "MAX_ROUTES = 4000"

definition EASY_VISA_WEIGHT :: nat where
  "EASY_VISA_WEIGHT = 10"

definition eligible_city :: "string \<Rightarrow> string \<Rightarrow> city_info" where
  "eligible_city cc c = \<lparr> country_code = cc, city = c, easy_visa = True \<rparr>"

definition cities_of_country :: "reference_data \<Rightarrow> string \<Rightarrow> city_info list" where
  "cities_of_country ref cc =
     (if cc \<in> set (easy_visa_countries ref) then
        (case map_of (major_cities ref) cc of
           None \<Rightarrow> []
         | Some cities \<Rightarrow> map (eligible_city cc) cities)
      else [])"

definition get_continent_city_mapping :: "reference_data \<Rightarrow> (string \<times> city_info list) list" where
  "get_continent_city_mapping ref =
     map (\<lambda>(cont, country_codes). (cont, concat (map (cities_of_country ref) country_codes)))
         (eligible_countries ref)"

definition calculate_route_score :: "stop list \<Rightarrow> nat" where
  "calculate_route_score r =
     length (filter easy_visa r) * EASY_VISA_WEIGHT
       + (if length (remdups (map country_code r)) < length r then 5 else 0)"

definition make_stop :: "string \<Rightarrow> city_info \<Rightarrow> stop" where
  "make_stop cont ci =
     \<lparr> country_code = country_code ci, city = city ci, easy_visa = easy_visa ci, continent = cont \<rparr>"

text \<open>\<open>list.sort(key=calculate_route_score, reverse=True)\<close>: stable, highest score first.\<close>

definition sort_by_score :: "stop list list \<Rightarrow> stop list list" where
  "sort_by_score routes = sort_key (\<lambda>r. - int (calculate_route_score r)) routes"

datatype enum_error = ValueError "string list" | KeyError string

definition missing_continents :: "string list \<Rightarrow> string list" where
  "missing_continents available = filter (\<lambda>c. c \<notin> set available) REQUIRED_CONTINENTS"

text \<open>
  The four selection strategies of the sampling generator, for a non-empty list of
  cities; every index is in range.
\<close>

definition select_city :: "nat \<Rightarrow> city_info list \<Rightarrow> city_info" where
  "select_city attempt cities =
     (let selection_strategy = attempt mod 4 in
      if selection_strategy = 0 then cities ! (attempt mod length cities)
      else if selection_strategy = 1 then sort_key city cities ! (attempt mod length cities)
      else if selection_strategy = 2 then sort_key country_code cities ! (attempt mod length cities)
      else if length cities > 1 then
        (let half = length cities div 2 in
         if attempt mod 2 = 0 \<and> half > 0 then cities ! ((attempt div 2) mod half)
         else (let available_cities = (if half > 0 then drop half cities else cities)
               in available_cities ! (attempt mod length available_cities)))
      else cities ! 0)"

text \<open>
  The inner loop of one attempt over the shuffled continents, with the route and the
  set of used continents built so far. \<open>continent_cities[continent]\<close> raises \<open>KeyError\<close>
  for a key that is not in the dict.
\<close>

fun build_route ::
  "(string \<times> city_info list) list \<Rightarrow> nat \<Rightarrow> string list \<Rightarrow> stop list \<Rightarrow> string list
     \<Rightarrow> enum_error + stop list" where
  "build_route continent_cities attempt [] r used_continents = Inr r"
| "build_route continent_cities attempt (cont # rest) r used_continents =
     (if cont \<in> set used_continents then build_route continent_cities attempt rest r used_continents
      else (case map_of continent_cities cont of
              None \<Rightarrow> Inl (KeyError cont)
            | Some cities \<Rightarrow>
                if cities = [] then build_route continent_cities attempt rest r used_continents
                else build_route continent_cities attempt rest
                       (r @ [make_stop cont (select_city attempt cities)])
                       (cont # used_continents)))"

text \<open>
  The loop over the attempts. \<open>random.seed(attempt); random.shuffle(continents)\<close> is the
  argument \<open>shuffle\<close>: the generator of Python is not modelled, only that the call
  returns some arrangement of the list for the seed.
\<close>

fun collect_routes ::
  "(nat \<Rightarrow> string list \<Rightarrow> string list) \<Rightarrow> (string \<times> city_info list) list \<Rightarrow> string list
     \<Rightarrow> nat list \<Rightarrow> stop list list \<Rightarrow> enum_error + stop list list" where
  "collect_routes shuffle continent_cities available [] all_routes = Inr all_routes"
| "collect_routes shuffle continent_cities available (attempt # attempts) all_routes =
     (case build_route continent_cities attempt
             (take NUM_CONTINENTS (shuffle attempt available)) [] [] of
        Inl e \<Rightarrow> Inl e
      | Inr r \<Rightarrow>
          collect_routes shuffle continent_cities available attempts
            (if length r = NUM_CONTINENTS then all_routes @ [r] else all_routes))"

definition route_sig :: "stop list \<Rightarrow> (string \<times> string \<times> string) list" where
  "route_sig r = sort (map (\<lambda>s. (continent s, city s, country_code s)) r)"

fun unique_routes ::
  "stop list list \<Rightarrow> (string \<times> string \<times> string) list list \<Rightarrow> stop list list" where
  "unique_routes [] seen_routes = []"
| "unique_routes (r # rs) seen_routes =
     (if route_sig r \<notin> set seen_routes then r # unique_routes rs (route_sig r # seen_routes)
      else unique_routes rs seen_routes)"

definition generate_optimal_routes ::
  "(nat \<Rightarrow> string list \<Rightarrow> string list) \<Rightarrow> reference_data \<Rightarrow> enum_error + stop list list" where
  "generate_optimal_routes shuffle ref =
     (let continent_cities = get_continent_city_mapping ref;
          available_continents = map fst continent_cities
      in if length available_continents < NUM_CONTINENTS
         then Inl (ValueError (missing_continents available_continents))
         else (case collect_routes shuffle continent_cities available_continents
                      [0..<MAX_ROUTES * 2] [] of
                 Inl e \<Rightarrow> Inl e
               | Inr all_routes \<Rightarrow>
                   Inr (take MAX_ROUTES (sort_by_score (unique_routes all_routes [])))))"

text \<open>\<open>itertools.product\<close> is \<^const>\<open>product_lists\<close>: the last list varies fastest.\<close>

definition generate_all_possible_combinations ::
  "(nat \<Rightarrow> string list \<Rightarrow> string list) \<Rightarrow> reference_data \<Rightarrow> enum_error + stop list list" where
  "generate_all_possible_combinations shuffle ref =
     (let continent_cities = get_continent_city_mapping ref;
          available_continents = map fst continent_cities
      in if length available_continents < NUM_CONTINENTS
         then Inl (ValueError (missing_continents available_continents))
         else (let total_combinations = prod_list (map (\<lambda>(cont, cities). length cities) continent_cities)
               in if total_combinations > 100000 then generate_optimal_routes shuffle ref
                  else Inr (sort_by_score
                              (map (\<lambda>combination. map2 make_stop available_continents combination)
                                   (product_lists (map snd continent_cities))))))"

definition routes_of :: "enum_error + stop list list \<Rightarrow> stop list list" where
  "routes_of res = (case res of Inl e \<Rightarrow> [] | Inr routes \<Rightarrow> routes)"

section \<open>Example inputs\<close>

text \<open>Offers as the scraper reports them, each with the text that \<open>str\<close> gives for its dict.\<close>

definition smartkargo_offer :: flight where
  "smartkargo_offer =
     \<lparr> airline = ''SmartKargo'', price = Some (rupee @ ''45,230''),
       route = [''DEL'', ''IST'', ''JFK''], stops = StopsText ''1 stop'',
       rendering = ''{'airline': 'SmartKargo', 'stops': '1 stop', 'price': '' @ CHR 0x27 # rupee @
                   ''45,230', 'route': ['DEL', 'IST', 'JFK']}'' \<rparr>"

definition plus_offer :: flight where
  "plus_offer =
     \<lparr> airline = ''Turkish Airlines+Lufthansa'', price = Some (rupee @ ''45,230''),
       route = [''DEL'', ''IST'', ''JFK''], stops = StopsText ''1 stop'',
       rendering = ''{'airline': 'Turkish Airlines+Lufthansa', 'stops': '1 stop', 'price': '' @
                   CHR 0x27 # rupee @ ''45,230', 'route': ['DEL', 'IST', 'JFK']}'' \<rparr>"

definition comma_offer :: flight where
  "comma_offer =
     \<lparr> airline = ''Turkish Airlines, Emirates'', price = Some (rupee @ ''45,230''),
       route = [''DEL'', ''IST'', ''JFK''], stops = StopsText ''1 stop'',
       rendering = ''{'airline': 'Turkish Airlines, Emirates', 'stops': '1 stop', 'price': '' @
                   CHR 0x27 # rupee @ ''45,230', 'route': ['DEL', 'IST', 'JFK']}'' \<rparr>"




text \<open>
  A route of the enumeration over the repository's reference data, an offer of the
  target carrier through the hub for a given pair of airports, scrapers, and an optimizer
  started without files.
\<close>

definition tk_offer :: "string \<Rightarrow> string \<Rightarrow> flight" where
  "tk_offer orig dest =
     \<lparr> airline = ''Turkish Airlines'', price = Some (rupee @ ''45,230''),
       route = [orig, ''IST'', dest], stops = StopsText ''1 stop'',
       rendering = ''{'airline': 'Turkish Airlines', 'stops': '1 stop', 'price': '' @ CHR 0x27 # rupee @
                   ''45,230', 'route': ['' @ CHR 0x27 # orig @ CHR 0x27 # '', 'IST', '' @
                   CHR 0x27 # dest @ CHR 0x27 # '']}'' \<rparr>"

definition baku_route :: "stop list" where
  "baku_route =
     [\<lparr> country_code = ''AZ'', city = ''Baku'', easy_visa = True, continent = ''Europe'' \<rparr>,
      \<lparr> country_code = ''CA'', city = ''Toronto'', easy_visa = True, continent = ''North America'' \<rparr>,
      \<lparr> country_code = ''AR'', city = ''Buenos Aires'', easy_visa = True, continent = ''South America'' \<rparr>,
      \<lparr> country_code = ''AE'', city = ''Dubai'', easy_visa = True, continent = ''Asia'' \<rparr>,
      \<lparr> country_code = ''MA'', city = ''Casablanca'', easy_visa = True, continent = ''Africa'' \<rparr>,
      \<lparr> country_code = ''AU'', city = ''Melbourne'', easy_visa = True, continent = ''Oceania'' \<rparr>]"

definition offers_until_toronto :: scraper where
  "offers_until_toronto orig dest =
     (if (orig, dest) = (''GYD'', ''YYZ'') then Returns [(''top_flights'', [tk_offer orig dest])]
      else Returns [])"

definition raises_after_toronto :: scraper where
  "raises_after_toronto orig dest =
     (if (orig, dest) = (''GYD'', ''YYZ'') then Returns [(''top_flights'', [tk_offer orig dest])]
      else Raises)"

definition tk_everywhere :: scraper where
  "tk_everywhere orig dest = Returns [(''top_flights'', [tk_offer orig dest])]"

definition fresh_optimizer :: optimizer where
  "fresh_optimizer = init_optimizer 20 Missing Missing"

text \<open>Two runs of the search over the same files, in two processes.\<close>

definition first_run :: "itinerary list option \<times> optimizer" where
  "first_run = search_all_routes_parallel tk_everywhere [baku_route] fresh_optimizer"

definition second_run :: "itinerary list option \<times> optimizer" where
  "second_run = search_all_routes_parallel tk_everywhere [baku_route] (restart (snd first_run))"

text \<open>
  The reference data of the repository with Australia taken out of the easy-visa set (as
  Bangladesh is in the source), the same data with only five continents listed, and an
  arrangement of the continents for the sampling generator.
\<close>

definition no_oceania :: reference_data where
  "no_oceania = utils\<lparr> easy_visa_countries := remove1 ''AU'' EASY_VISA_COUNTRIES \<rparr>"

definition keep_order :: "nat \<Rightarrow> string list \<Rightarrow> string list" where
  "keep_order seed continents = continents"

definition five_continents :: reference_data where
  "five_continents = utils\<lparr> eligible_countries := take 5 get_eligible_country_list \<rparr>"

section \<open>Properties of the validator\<close>

lemma filter_turkish_conv: "filter_turkish_airlines_flights fs = filter accepted fs"
  by (induction fs) (auto simp: accepted_def)

lemma sublist_single: "sublist [c] s \<longleftrightarrow> c \<in> set s"
  by (induction s) (auto simp: sublist_Cons_right)

lemma sublist_dropWhile:
  assumes "sublist n s" "n \<noteq> []" "\<not> P (hd n)"
  shows "sublist n (dropWhile P s)"
proof -
  from assms(1) obtain ps ss where s: "s = ps @ n @ ss" by (auto simp: sublist_def)
  from assms(2,3) have "dropWhile P (n @ ss) = n @ ss" by (cases n) auto
  then have "dropWhile P s = (if \<forall>x\<in>set ps. P x then n @ ss else dropWhile P ps @ n @ ss)"
    unfolding s by (simp add: dropWhile_append)
  then show ?thesis by (auto simp: sublist_def split: if_splits)
qed

lemma sublist_py_strip:
  assumes "sublist n s" "n \<noteq> []" "\<not> is_space (hd n)" "\<not> is_space (last n)"
  shows "sublist n (py_strip s)"
proof -
  have 1: "sublist n (dropWhile is_space s)" using assms by (intro sublist_dropWhile)
  then have "sublist (rev n) (rev (dropWhile is_space s))" by (simp add: sublist_rev)
  moreover have "\<not> is_space (hd (rev n))" using assms by (simp add: hd_rev)
  ultimately have "sublist (rev n) (dropWhile is_space (rev (dropWhile is_space s)))"
    using assms(2) by (intro sublist_dropWhile) auto
  then have "sublist (rev (rev n)) (rev (dropWhile is_space (rev (dropWhile is_space s))))"
    by (simp only: sublist_rev)
  then show ?thesis by (simp add: py_strip_def)
qed

lemma alias_kept_by_strip:
  assumes "sublist n s" "n \<in> {''tk'', ''thy'', ''turkish''}"
  shows "sublist n (py_strip s)"
proof -
  from assms(2) have "n \<noteq> [] \<and> \<not> is_space (hd n) \<and> \<not> is_space (last n)"
    by (auto simp: is_space_def)
  with assms(1) show ?thesis by (simp add: sublist_py_strip)
qed

lemma alias_is_turkish:
  assumes "sublist ''tk'' (py_lower a) \<or> sublist ''thy'' (py_lower a) \<or> sublist ''turkish'' (py_lower a)"
  shows "is_turkish a"
proof -
  from assms have "sublist ''tk'' (py_strip (py_lower a)) \<or> sublist ''thy'' (py_strip (py_lower a))
      \<or> sublist ''turkish'' (py_strip (py_lower a))"
    using alias_kept_by_strip [of _ "py_lower a"] by blast
  then show ?thesis
    by (auto simp: is_turkish_def turkish_airlines_names_def Let_def)
qed

text \<open>
  Claim C3, as stated: an offer whose airline field contains a comma, a plus sign or a
  slash anywhere is rejected. The source tests for \<open>" + "\<close>, a plus sign between two
  spaces, so a plus sign without them is not a codeshare marker: the offer below, with
  airline \<open>Turkish Airlines+Lufthansa\<close> and a route through IST, is kept.
\<close>

theorem plus_without_spaces_counterexample:
  "CHR ''+'' \<in> set (airline plus_offer) \<and> filter_turkish_airlines_flights [plus_offer] = [plus_offer]"
proof -
  have a: "airline plus_offer = ''Turkish Airlines+Lufthansa''" by (simp add: plus_offer_def)
  have m: "\<not> sublist '','' ''Turkish Airlines+Lufthansa''" "\<not> sublist '' + '' ''Turkish Airlines+Lufthansa''"
    "\<not> sublist ''/'' ''Turkish Airlines+Lufthansa''" by code_simp+
  have t: "is_turkish ''Turkish Airlines+Lufthansa''" by code_simp
  have h: "has_ist plus_offer" by (simp add: has_ist_def all_airports_def plus_offer_def)
  show ?thesis using m t h by (simp add: a)
qed

text \<open>
  Claim C3, amended: an offer whose airline field contains a comma, the three characters
  space, plus, space, or a slash is not among the offers the validator returns, whatever
  its other fields and whatever the other offers are; in particular an offer of airline
  \<open>Turkish Airlines, Emirates\<close> is always rejected.
\<close>

theorem codeshare_marker_rejected:
  "(CHR '','' \<in> set (airline f) \<or> sublist '' + '' (airline f) \<or> CHR ''/'' \<in> set (airline f)
      \<longrightarrow> f \<notin> set (filter_turkish_airlines_flights fs))
   \<and> (airline f = ''Turkish Airlines, Emirates'' \<longrightarrow> f \<notin> set (filter_turkish_airlines_flights fs))"
proof -
  have "sublist '','' ''Turkish Airlines, Emirates''" by code_simp
  then show ?thesis
    by (auto simp: filter_turkish_conv accepted_def sublist_single)
qed

theorem codeshare_marker_rejected_witness:
  "CHR '','' \<in> set (airline comma_offer)
   \<and> airline comma_offer = ''Turkish Airlines, Emirates''
   \<and> comma_offer \<notin> set (filter_turkish_airlines_flights [plus_offer, comma_offer])"
  using codeshare_marker_rejected [of comma_offer "[plus_offer, comma_offer]"]
  by (simp add: comma_offer_def)

text \<open>
  Claim C10: the target-airline test is a substring test. An offer with a non-empty
  airline field that holds no comma, no plus sign and no slash, and whose lowercased
  airline contains \<open>tk\<close>, \<open>thy\<close> or \<open>turkish\<close> anywhere, passes the airline test; whether
  the validator keeps it is then decided by the hub test alone. The witness is the
  airline name \<open>SmartKargo\<close>, which is unrelated to the target carrier.
\<close>

theorem substring_alias_accepted:
  assumes "airline f \<noteq> []"
    and "CHR '','' \<notin> set (airline f)" and "CHR ''+'' \<notin> set (airline f)" and "CHR ''/'' \<notin> set (airline f)"
    and "sublist ''tk'' (py_lower (airline f)) \<or> sublist ''thy'' (py_lower (airline f))
           \<or> sublist ''turkish'' (py_lower (airline f))"
  shows "is_turkish (airline f) \<and> filter_turkish_airlines_flights [f] = (if has_ist f then [f] else [])"
proof -
  have t: "is_turkish (airline f)" using assms(5) by (rule alias_is_turkish)
  have "\<not> sublist '','' (airline f)" "\<not> sublist ''/'' (airline f)"
    using assms(2,4) by (simp_all add: sublist_single)
  moreover have "\<not> sublist '' + '' (airline f)"
  proof
    assume "sublist '' + '' (airline f)"
    then have "set '' + '' \<subseteq> set (airline f)" by (rule set_mono_sublist)
    with assms(3) show False by simp
  qed
  ultimately show ?thesis using t assms(1) by simp
qed

theorem substring_alias_accepted_witness:
  "airline smartkargo_offer \<noteq> [] \<and> CHR '','' \<notin> set (airline smartkargo_offer)
   \<and> CHR ''+'' \<notin> set (airline smartkargo_offer) \<and> CHR ''/'' \<notin> set (airline smartkargo_offer)
   \<and> sublist ''tk'' (py_lower (airline smartkargo_offer))
   \<and> is_turkish (airline smartkargo_offer)
   \<and> filter_turkish_airlines_flights [smartkargo_offer] = [smartkargo_offer]"
proof -
  have a: "airline smartkargo_offer = ''SmartKargo''" by (simp add: smartkargo_offer_def)
  have l: "py_lower ''SmartKargo'' = ''smartkargo''" by code_simp
  have s: "sublist ''tk'' ''smartkargo''" by code_simp
  have h: "has_ist smartkargo_offer" by (simp add: has_ist_def all_airports_def smartkargo_offer_def)
  show ?thesis
    using substring_alias_accepted [of smartkargo_offer] h s
    by (simp add: a l)
qed

section \<open>Price parsing and the choice of the cheapest offer\<close>










section \<open>The results file\<close>



section \<open>The search of one route\<close>

lemma cheapest_of_nonempty: "valid \<noteq> [] \<Longrightarrow> \<exists>c. cheapest_of valid = Some c"
  by (cases valid) (simp_all add: cheapest_of_def)

lemma search_segments_stop:
  assumes "i + 1 < length r" "\<not> segment_ok scraper r i"
  shows "search_segments scraper r i rf tc st =
           (None, save_progress (route_to_signature r)
                    (st\<lparr> queries := queries st @ [(origin_code_of r i, dest_code_of r i)] \<rparr>))"
  using assms
  by (subst search_segments.simps)
     (auto simp: segment_ok_def Let_def split: response.splits option.splits)

lemma search_segments_step:
  assumes "i + 1 < length r" "segment_ok scraper r i"
  shows "\<exists>rf' tc'. search_segments scraper r i rf tc st =
           search_segments scraper r (i + 1) rf' tc'
             (st\<lparr> queries := queries st @ [(origin_code_of r i, dest_code_of r i)] \<rparr>)"
proof -
  from assms(2) obtain d where d: "scraper (origin_code_of r i) (dest_code_of r i) = Returns d"
    and v: "filter_turkish_airlines_flights (gather_flights d) \<noteq> []"
    by (auto simp: segment_ok_def split: response.splits)
  from v have g: "gather_flights d \<noteq> []" by auto
  from v obtain c where c: "cheapest_of (filter_turkish_airlines_flights (gather_flights d)) = Some c"
    using cheapest_of_nonempty by blast
  have "search_segments scraper r i rf tc st =
          search_segments scraper r (i + 1)
            (rf @ [\<lparr> segment = city (r ! i) @ '' '' @ arrow @ '' '' @ city (r ! (i + 1)),
                     origin = origin_code_of r i, destination = dest_code_of r i, seg_flight = c \<rparr>])
            (tc + parse_price (price_or (rupee @ ''0'') c))
            (st\<lparr> queries := queries st @ [(origin_code_of r i, dest_code_of r i)] \<rparr>)"
    using assms(1) d v g c by (subst search_segments.simps) (simp add: Let_def)
  then show ?thesis by blast
qed

lemma search_segments_fail:
  assumes "k + 1 < length r" "i \<le> k" "\<forall>j. i \<le> j \<and> j < k \<longrightarrow> segment_ok scraper r j"
    "\<not> segment_ok scraper r k"
  shows "search_segments scraper r i rf tc st =
           (None, save_progress (route_to_signature r)
                    (st\<lparr> queries := queries st @ segment_queries r i (k + 1) \<rparr>))"
  using assms
proof (induction "k - i" arbitrary: i rf tc st)
  case 0
  then have "i = k" by simp
  with 0 show ?case by (simp add: search_segments_stop segment_queries_def)
next
  case (Suc n)
  then have lt: "i < k" and ok: "segment_ok scraper r i" and len: "i + 1 < length r" by auto
  from search_segments_step [OF len ok] obtain rf' tc' where
    s: "search_segments scraper r i rf tc st =
           search_segments scraper r (i + 1) rf' tc'
             (st\<lparr> queries := queries st @ [(origin_code_of r i, dest_code_of r i)] \<rparr>)"
    by blast
  have "n = k - (i + 1)" using Suc.hyps(2) by simp
  from Suc.hyps(1) [OF this Suc.prems(1)] lt Suc.prems(3,4)
  have "search_segments scraper r (i + 1) rf' tc'
             (st\<lparr> queries := queries st @ [(origin_code_of r i, dest_code_of r i)] \<rparr>) =
        (None, save_progress (route_to_signature r)
                 (st\<lparr> queries := queries st @ [(origin_code_of r i, dest_code_of r i)] \<rparr>
                    \<lparr> queries := queries (st\<lparr> queries := queries st @ [(origin_code_of r i, dest_code_of r i)] \<rparr>)
                                   @ segment_queries r (i + 1) (k + 1) \<rparr>))"
    by simp
  moreover have "segment_queries r i (k + 1) = (origin_code_of r i, dest_code_of r i) # segment_queries r (i + 1) (k + 1)"
    using lt by (simp add: segment_queries_def upt_conv_Cons)
  ultimately show ?case using s by simp
qed

lemma search_segments_all_ok:
  assumes "\<forall>j. i \<le> j \<and> j + 1 < length r \<longrightarrow> segment_ok scraper r j"
  shows "\<exists>rf' tc'. search_segments scraper r i rf tc st =
           (Some (rf', tc'), st\<lparr> queries := queries st @ segment_queries r i (length r - 1) \<rparr>)"
  using assms
proof (induction "length r - 1 - i" arbitrary: i rf tc st)
  case 0
  then have "\<not> i + 1 < length r" by simp
  then show ?case
    by (subst search_segments.simps) (simp add: segment_queries_def)
next
  case (Suc n)
  then have len: "i + 1 < length r" by simp
  with Suc.prems have ok: "segment_ok scraper r i" by simp
  from search_segments_step [OF len ok] obtain rf' tc' where
    s: "search_segments scraper r i rf tc st =
           search_segments scraper r (i + 1) rf' tc'
             (st\<lparr> queries := queries st @ [(origin_code_of r i, dest_code_of r i)] \<rparr>)"
    by blast
  have "n = length r - 1 - (i + 1)" using Suc.hyps(2) by simp
  from Suc.hyps(1) [OF this, of rf' tc' "st\<lparr> queries := queries st @ [(origin_code_of r i, dest_code_of r i)] \<rparr>"] Suc.prems
  obtain rf'' tc'' where
   "search_segments scraper r (i + 1) rf' tc'
             (st\<lparr> queries := queries st @ [(origin_code_of r i, dest_code_of r i)] \<rparr>) =
        (Some (rf'', tc''), st\<lparr> queries := queries st @ [(origin_code_of r i, dest_code_of r i)] \<rparr>
                    \<lparr> queries := queries (st\<lparr> queries := queries st @ [(origin_code_of r i, dest_code_of r i)] \<rparr>)
                                   @ segment_queries r (i + 1) (length r - 1) \<rparr>)"
    by auto
  moreover have "segment_queries r i (length r - 1) = (origin_code_of r i, dest_code_of r i) # segment_queries r (i + 1) (length r - 1)"
    using len by (simp add: segment_queries_def upt_conv_Cons)
  ultimately show ?case using s by simp
qed


lemma worker_stops_at:
  assumes "i + 1 < length r" "\<forall>j<i. segment_ok scraper r j" "\<not> segment_ok scraper r i"
  shows "worker_search_route scraper (r, idx) st =
           (None, update_progress False True
                    (save_progress (route_to_signature r)
                       (st\<lparr> queries := queries st @ segment_queries r 0 (i + 1) \<rparr>)))"
proof -
  have "search_segments scraper r 0 [] 0 st =
           (None, save_progress (route_to_signature r)
                    (st\<lparr> queries := queries st @ segment_queries r 0 (i + 1) \<rparr>))"
    using assms by (intro search_segments_fail) auto
  then show ?thesis by (simp add: worker_search_route_def search_route_flights_def)
qed

lemma stopped_state_facts:
  "queries (update_progress False True (save_progress sig (st\<lparr> queries := qs \<rparr>))) = qs"
  "sig \<in> set (completed_routes (update_progress False True (save_progress sig st)))"
  "discarded_count (update_progress False True (save_progress sig (st\<lparr> queries := qs \<rparr>)))
     = Some ((case discarded_count st of None \<Rightarrow> 0 | Some n \<Rightarrow> n) + 1)"
  "completed_count (update_progress False True (save_progress sig (st\<lparr> queries := qs \<rparr>))) = completed_count st"
  "failed_count (update_progress False True (save_progress sig (st\<lparr> queries := qs \<rparr>))) = failed_count st"
  "results_file (update_progress False True (save_progress sig (st\<lparr> queries := qs \<rparr>))) = results_file st"
  by (simp_all add: update_progress_def save_progress_def Let_def)

lemma length_segment_queries: "length (segment_queries r i k) = k - i"
  by (simp add: segment_queries_def)

lemma baku_codes:
  "origin_code_of baku_route 0 = ''GYD''" "dest_code_of baku_route 0 = ''YYZ''"
  "origin_code_of baku_route 1 = ''YYZ''" "dest_code_of baku_route 1 = ''EZE''"
  "origin_code_of baku_route (Suc 0) = ''YYZ''" "dest_code_of baku_route (Suc 0) = ''EZE''"
  by code_simp+

lemma tk_offer_accepted: "filter_turkish_airlines_flights [tk_offer orig dest] = [tk_offer orig dest]"
proof -
  have t: "is_turkish ''Turkish Airlines''" by code_simp
  have m: "\<not> sublist '','' ''Turkish Airlines''" "\<not> sublist '' + '' ''Turkish Airlines''"
    "\<not> sublist ''/'' ''Turkish Airlines''" by code_simp+
  have h: "has_ist (tk_offer orig dest)" by (simp add: has_ist_def all_airports_def tk_offer_def)
  have a: "airline (tk_offer orig dest) = ''Turkish Airlines''" by (simp add: tk_offer_def)
  show ?thesis using t m h by (simp add: a)
qed

lemma gather_top: "gather_flights [(''top_flights'', [f])] = [f]"
  by (simp add: gather_flights_def)

lemma gather_nothing: "gather_flights [] = []"
  by (simp add: gather_flights_def)

lemma fresh_fields:
  "queries fresh_optimizer = []" "discarded_count fresh_optimizer = None"
  "failed_count fresh_optimizer = 0" "completed_count fresh_optimizer = 0"
  "completed_routes fresh_optimizer = []" "max_routes_to_search fresh_optimizer = 20"
  "results_file fresh_optimizer = Missing"
  by (simp_all add: fresh_optimizer_def init_optimizer_def load_existing_progress_def)

lemma baku_two_queries:
  "segment_queries baku_route 0 (Suc (Suc 0)) = [(''GYD'', ''YYZ''), (''YYZ'', ''EZE'')]"
  by (simp add: segment_queries_def baku_codes upt_rec)

text \<open>
  Claim C1: when segment \<open>i\<close> is the first one for which the query returns no offer or
  the validator keeps none (the segments before it each gave a valid offer), the worker
  makes exactly \<open>i + 1\<close> calls of the query client for the route, namely those of the
  segments 0 to \<open>i\<close> and none after; the route returns no result, is counted as
  discarded and as nothing else, writes no result, and its signature is recorded as
  completed. The witness is a route of six stops whose second segment gives no offer:
  two calls are made.
\<close>

theorem early_termination:
  assumes "i + 1 < length r" and "\<forall>j<i. segment_ok scraper r j" and "segment_unusable scraper r i"
  shows "fst (worker_search_route scraper (r, idx) st) = None
     \<and> queries (snd (worker_search_route scraper (r, idx) st)) = queries st @ segment_queries r 0 (i + 1)
     \<and> length (queries (snd (worker_search_route scraper (r, idx) st))) = length (queries st) + (i + 1)
     \<and> route_to_signature r \<in> set (completed_routes (snd (worker_search_route scraper (r, idx) st)))
     \<and> discarded_count (snd (worker_search_route scraper (r, idx) st))
           = Some ((case discarded_count st of None \<Rightarrow> 0 | Some n \<Rightarrow> n) + 1)
     \<and> completed_count (snd (worker_search_route scraper (r, idx) st)) = completed_count st
     \<and> failed_count (snd (worker_search_route scraper (r, idx) st)) = failed_count st
     \<and> results_file (snd (worker_search_route scraper (r, idx) st)) = results_file st"
proof -
  from assms(3) have "\<not> segment_ok scraper r i"
    by (auto simp: segment_unusable_def segment_ok_def split: response.splits)
  from worker_stops_at [OF assms(1,2) this]
  show ?thesis by (simp add: stopped_state_facts length_segment_queries)
qed

theorem early_termination_witness:
  "1 + 1 < length baku_route
   \<and> segment_ok offers_until_toronto baku_route 0
   \<and> segment_unusable offers_until_toronto baku_route 1
   \<and> fst (worker_search_route offers_until_toronto (baku_route, 1) fresh_optimizer) = None
   \<and> queries (snd (worker_search_route offers_until_toronto (baku_route, 1) fresh_optimizer))
         = [(''GYD'', ''YYZ''), (''YYZ'', ''EZE'')]
   \<and> discarded_count (snd (worker_search_route offers_until_toronto (baku_route, 1) fresh_optimizer)) = Some 1"
proof -
  have l: "1 + 1 < length baku_route" by (simp add: baku_route_def)
  have ok: "\<forall>j<1. segment_ok offers_until_toronto baku_route j"
    by (simp add: segment_ok_def baku_codes offers_until_toronto_def gather_top tk_offer_accepted
             del: filter_turkish_airlines_flights.simps)
  have un: "segment_unusable offers_until_toronto baku_route 1"
    by (simp add: segment_unusable_def baku_codes offers_until_toronto_def gather_nothing)
  from early_termination [OF l ok un, of 1 fresh_optimizer]
  show ?thesis using l ok un by (simp add: baku_two_queries fresh_fields)
qed

text \<open>
  Claim C2, as stated: a query that raises gives a recorded outcome that can be told from
  the one of an empty result. The inner handler of the source prints that the route is
  discarded because of a search error and returns \<open>None\<close>, like the two other early
  returns, and the worker counts every \<open>None\<close> as discarded: on the same route, a
  scraper that raises at the second segment and one that returns nothing there leave
  the same result and the same state, with the failed counter at 0.
\<close>

theorem failure_indistinguishable_counterexample:
  "segment_raises raises_after_toronto baku_route 1
   \<and> segment_unusable offers_until_toronto baku_route 1
   \<and> worker_search_route raises_after_toronto (baku_route, 1) fresh_optimizer
       = worker_search_route offers_until_toronto (baku_route, 1) fresh_optimizer
   \<and> failed_count (snd (worker_search_route raises_after_toronto (baku_route, 1) fresh_optimizer)) = 0
   \<and> discarded_count (snd (worker_search_route raises_after_toronto (baku_route, 1) fresh_optimizer)) = Some 1"
proof -
  have l: "1 + 1 < length baku_route" by (simp add: baku_route_def)
  have ok1: "\<forall>j<1. segment_ok raises_after_toronto baku_route j"
    by (simp add: segment_ok_def baku_codes raises_after_toronto_def gather_top tk_offer_accepted
             del: filter_turkish_airlines_flights.simps)
  have ok2: "\<forall>j<1. segment_ok offers_until_toronto baku_route j"
    by (simp add: segment_ok_def baku_codes offers_until_toronto_def gather_top tk_offer_accepted
             del: filter_turkish_airlines_flights.simps)
  have ra: "segment_raises raises_after_toronto baku_route 1"
    by (simp add: segment_raises_def baku_codes raises_after_toronto_def)
  have un: "segment_unusable offers_until_toronto baku_route 1"
    by (simp add: segment_unusable_def baku_codes offers_until_toronto_def gather_nothing)
  have n1: "\<not> segment_ok raises_after_toronto baku_route 1"
    using ra by (simp add: segment_raises_def segment_ok_def)
  have n2: "\<not> segment_ok offers_until_toronto baku_route 1"
    using un by (auto simp: segment_unusable_def segment_ok_def split: response.splits)
  show ?thesis
    using ra un
    by (simp add: worker_stops_at [OF l ok1 n1] worker_stops_at [OF l ok2 n2]
                  stopped_state_facts fresh_fields)
qed

text \<open>
  Claim C2, amended: when the query of segment \<open>i\<close> raises (the segments before it each
  gave a valid offer), the route ends as after an empty result: no result, no later
  segment queried, the signature recorded as completed, the discarded counter
  incremented by one and the failed and completed counters unchanged.
\<close>

theorem query_failure_counted_as_discarded:
  assumes "i + 1 < length r" and "\<forall>j<i. segment_ok scraper r j" and "segment_raises scraper r i"
  shows "fst (worker_search_route scraper (r, idx) st) = None
     \<and> queries (snd (worker_search_route scraper (r, idx) st)) = queries st @ segment_queries r 0 (i + 1)
     \<and> route_to_signature r \<in> set (completed_routes (snd (worker_search_route scraper (r, idx) st)))
     \<and> discarded_count (snd (worker_search_route scraper (r, idx) st))
           = Some ((case discarded_count st of None \<Rightarrow> 0 | Some n \<Rightarrow> n) + 1)
     \<and> completed_count (snd (worker_search_route scraper (r, idx) st)) = completed_count st
     \<and> failed_count (snd (worker_search_route scraper (r, idx) st)) = failed_count st
     \<and> results_file (snd (worker_search_route scraper (r, idx) st)) = results_file st"
proof -
  from assms(3) have "\<not> segment_ok scraper r i"
    by (auto simp: segment_raises_def segment_ok_def split: response.splits)
  from worker_stops_at [OF assms(1,2) this]
  show ?thesis by (simp add: stopped_state_facts)
qed

theorem query_failure_counted_as_discarded_witness:
  "1 + 1 < length baku_route
   \<and> segment_ok raises_after_toronto baku_route 0
   \<and> segment_raises raises_after_toronto baku_route 1
   \<and> fst (worker_search_route raises_after_toronto (baku_route, 1) fresh_optimizer) = None
   \<and> queries (snd (worker_search_route raises_after_toronto (baku_route, 1) fresh_optimizer))
         = [(''GYD'', ''YYZ''), (''YYZ'', ''EZE'')]
   \<and> discarded_count (snd (worker_search_route raises_after_toronto (baku_route, 1) fresh_optimizer)) = Some 1
   \<and> failed_count (snd (worker_search_route raises_after_toronto (baku_route, 1) fresh_optimizer)) = 0"
proof -
  have l: "1 + 1 < length baku_route" by (simp add: baku_route_def)
  have ok: "\<forall>j<1. segment_ok raises_after_toronto baku_route j"
    by (simp add: segment_ok_def baku_codes raises_after_toronto_def gather_top tk_offer_accepted
             del: filter_turkish_airlines_flights.simps)
  have ra: "segment_raises raises_after_toronto baku_route 1"
    by (simp add: segment_raises_def baku_codes raises_after_toronto_def)
  from query_failure_counted_as_discarded [OF l ok ra, of 1 fresh_optimizer]
  show ?thesis using l ok ra by (simp add: baku_two_queries fresh_fields)
qed

section \<open>The run counters\<close>

lemma first_unusable_segment:
  assumes "\<exists>j. j + 1 < length r \<and> \<not> segment_ok scraper r j"
  obtains k where "k + 1 < length r" "\<forall>j<k. segment_ok scraper r j" "\<not> segment_ok scraper r k"
proof -
  define k where "k = (LEAST j. j + 1 < length r \<and> \<not> segment_ok scraper r j)"
  from assms have 1: "k + 1 < length r \<and> \<not> segment_ok scraper r k"
    unfolding k_def by (rule LeastI_ex)
  have 2: "segment_ok scraper r j" if "j < k" for j
  proof (rule ccontr)
    assume "\<not> segment_ok scraper r j"
    moreover from that 1 have "j + 1 < length r" by simp
    ultimately have "k \<le> j" unfolding k_def by (intro Least_le) simp
    with that show False by simp
  qed
  from 1 2 that show thesis by blast
qed

lemma worker_completes:
  assumes "\<forall>j. j + 1 < length r \<longrightarrow> segment_ok scraper r j"
  shows "\<exists>res. itinerary_route res = r \<and> route_index res = idx \<and>
           worker_search_route scraper (r, idx) st =
           (Some res, update_progress True False
                        (save_progress (route_to_signature r)
                           (save_result_to_file res
                              (st\<lparr> queries := queries st @ segment_queries r 0 (length r - 1) \<rparr>))))"
proof -
  from assms have "\<forall>j. 0 \<le> j \<and> j + 1 < length r \<longrightarrow> segment_ok scraper r j" by simp
  from search_segments_all_ok [OF this, of "[]" 0 st] obtain rf tc where
    "search_segments scraper r 0 [] 0 st =
       (Some (rf, tc), st\<lparr> queries := queries st @ segment_queries r 0 (length r - 1) \<rparr>)"
    by blast
  then show ?thesis
    by (simp add: worker_search_route_def search_route_flights_def Let_def)
qed

lemma completed_state_facts:
  "completed_count (update_progress True False (save_progress sig (save_result_to_file res st)))
     = completed_count st + 1"
  "discarded_count (update_progress True False (save_progress sig (save_result_to_file res st)))
     = discarded_count st"
  "failed_count (update_progress True False (save_progress sig (save_result_to_file res st)))
     = failed_count st"
  "queries (update_progress True False (save_progress sig (save_result_to_file res st))) = queries st"
  "max_routes_to_search (update_progress True False (save_progress sig (save_result_to_file res st)))
     = max_routes_to_search st"
  "results_file (update_progress True False (save_progress sig (save_result_to_file res st)))
     = Contents (sort_key cost_key ((case results_file st of Contents l \<Rightarrow> l | _ \<Rightarrow> []) @ [res]))"
  "progress_file (update_progress True False (save_progress sig (save_result_to_file res st)))
     = Contents (map json_roundtrip (List.insert sig (completed_routes st)))"
  by (simp_all add: update_progress_def save_progress_def save_result_to_file_def Let_def)

lemma worker_counts_once:
  "(completed_count (snd (worker_search_route scraper args st)) = completed_count st + 1
      \<and> discarded_so_far (snd (worker_search_route scraper args st)) = discarded_so_far st
      \<and> failed_count (snd (worker_search_route scraper args st)) = failed_count st)
   \<or> (completed_count (snd (worker_search_route scraper args st)) = completed_count st
      \<and> discarded_so_far (snd (worker_search_route scraper args st)) = discarded_so_far st + 1
      \<and> failed_count (snd (worker_search_route scraper args st)) = failed_count st)"
proof -
  obtain r idx where args: "args = (r, idx)" by (cases args)
  show ?thesis
  proof (cases "\<exists>j. j + 1 < length r \<and> \<not> segment_ok scraper r j")
    case True
    then obtain k where "k + 1 < length r" "\<forall>j<k. segment_ok scraper r j" "\<not> segment_ok scraper r k"
      by (rule first_unusable_segment)
    from worker_stops_at [OF this] show ?thesis
      by (simp add: args stopped_state_facts discarded_so_far_def)
  next
    case False
    then have "\<forall>j. j + 1 < length r \<longrightarrow> segment_ok scraper r j" by blast
    from worker_completes [OF this, of idx st] obtain res where
      "worker_search_route scraper (r, idx) st =
           (Some res, update_progress True False
                        (save_progress (route_to_signature r)
                           (save_result_to_file res
                              (st\<lparr> queries := queries st @ segment_queries r 0 (length r - 1) \<rparr>))))"
      by blast
    then show ?thesis
      by (simp add: args completed_state_facts discarded_so_far_def)
  qed
qed

lemma worker_total: "total_processed (snd (worker_search_route scraper args st)) = total_processed st + 1"
  using worker_counts_once [of scraper args st]
  by (auto simp: total_processed_def discarded_so_far_def)

lemma run_pending_total:
  "total_processed (snd (run_pending scraper pending (results, st))) = total_processed st + length pending"
proof (induction pending arbitrary: results st)
  case Nil
  show ?case by (simp add: run_pending_def)
next
  case (Cons a pending)
  obtain res st' where w: "worker_search_route scraper a st = (res, st')"
    by (cases "worker_search_route scraper a st")
  then have t: "total_processed st' = total_processed st + 1"
    using worker_total [of scraper a st] by simp
  have "run_pending scraper (a # pending) (results, st) =
          run_pending scraper pending ((case res of None \<Rightarrow> results | Some x \<Rightarrow> results @ [x]), st')"
    using w by (cases res) (simp_all add: run_pending_def)
  with Cons.IH [of _ st'] t show ?case by simp
qed

text \<open>
  Claim C6: every route a worker processes ends with exactly one of the three counters
  (completed, discarded, failed) one higher and the two others unchanged, and over a
  whole run the sum of the three grows by the number of routes that were pending. A
  completed route is counted in \<open>search_route_flights\<close>, every other one in the worker;
  the outer handler of \<open>search_route_flights\<close>, which counts a failure and then returns
  the \<open>None\<close> that the worker counts again, is not reached on a route of well-formed
  stops. The locks themselves are not part of this sequential model.
\<close>

theorem one_increment_per_route:
  "((completed_count (snd (worker_search_route scraper args st)) = completed_count st + 1
      \<and> discarded_so_far (snd (worker_search_route scraper args st)) = discarded_so_far st
      \<and> failed_count (snd (worker_search_route scraper args st)) = failed_count st)
   \<or> (completed_count (snd (worker_search_route scraper args st)) = completed_count st
      \<and> discarded_so_far (snd (worker_search_route scraper args st)) = discarded_so_far st + 1
      \<and> failed_count (snd (worker_search_route scraper args st)) = failed_count st)
   \<or> (completed_count (snd (worker_search_route scraper args st)) = completed_count st
      \<and> discarded_so_far (snd (worker_search_route scraper args st)) = discarded_so_far st
      \<and> failed_count (snd (worker_search_route scraper args st)) = failed_count st + 1))
   \<and> total_processed (snd (search_all_routes_parallel scraper routes st))
       = total_processed st + length (pending_routes st routes)"
proof -
  have "total_processed (snd (search_all_routes_parallel scraper routes st))
       = total_processed st + length (pending_routes st routes)"
  proof (cases "pending_routes st routes = []")
    case True
    then show ?thesis by (simp add: search_all_routes_parallel_def)
  next
    case False
    obtain results st' where r: "run_pending scraper (pending_routes st routes) ([], st) = (results, st')"
      by (cases "run_pending scraper (pending_routes st routes) ([], st)")
    with run_pending_total [of scraper "pending_routes st routes" "[]" st]
    have "total_processed st' = total_processed st + length (pending_routes st routes)" by simp
    with False r show ?thesis by (simp add: search_all_routes_parallel_def Let_def)
  qed
  with worker_counts_once [of scraper args st] show ?thesis by blast
qed

section \<open>Resuming after a restart\<close>

lemma json_triple_not_hashable:
  "\<not> hashable (json_roundtrip ((\<lambda>(c, cc, ct). PTuple [PStr c, PStr cc, PStr ct]) x))"
  by (cases x) simp

lemma signature_not_hashable_after_json:
  assumes "r \<noteq> []"
  shows "\<not> hashable (py_tuple (json_roundtrip (route_to_signature r)))"
proof -
  define xs where "xs = sort (map (\<lambda>s. (city s, country_code s, continent s)) r)"
  have "length xs = length r" by (simp add: xs_def)
  with assms obtain x where x: "x \<in> set xs" by (cases xs) auto
  have "py_tuple (json_roundtrip (route_to_signature r)) =
          PTuple (map (\<lambda>x. json_roundtrip ((\<lambda>(c, cc, ct). PTuple [PStr c, PStr cc, PStr ct]) x)) xs)"
    by (simp add: route_to_signature_def xs_def comp_def)
  moreover have "\<not> list_all hashable
       (map (\<lambda>x. json_roundtrip ((\<lambda>(c, cc, ct). PTuple [PStr c, PStr cc, PStr ct]) x)) xs)"
    using x json_triple_not_hashable unfolding list_all_iff by fastforce
  ultimately show ?thesis by simp
qed

lemma reload_forgets:
  assumes "r \<noteq> []" "route_to_signature r \<in> set cr"
  shows "load_existing_progress (Contents (map json_roundtrip cr)) = []"
proof -
  have "\<not> list_all hashable (map py_tuple (map json_roundtrip cr))"
    using signature_not_hashable_after_json [OF assms(1)] assms(2)
    unfolding list_all_iff by fastforce
  then show ?thesis
    by (simp add: load_existing_progress_def Let_def)
qed

lemma tk_everywhere_ok: "segment_ok tk_everywhere r j"
  by (simp add: segment_ok_def tk_everywhere_def gather_top tk_offer_accepted
           del: filter_turkish_airlines_flights.simps)

lemma single_pending:
  assumes "completed_routes st = []" "max_routes_to_search st = 20"
  shows "pending_routes st [r] = [(r, 1)]"
  using assms by (simp add: pending_routes_def is_route_completed_def)

lemma run_single_complete:
  assumes "completed_routes st = []" "max_routes_to_search st = 20"
  shows "\<exists>res. snd (search_all_routes_parallel tk_everywhere [r] st) =
           update_progress True False
             (save_progress (route_to_signature r)
                (save_result_to_file res
                   (st\<lparr> queries := queries st @ segment_queries r 0 (length r - 1) \<rparr>)))"
proof -
  from worker_completes [of r tk_everywhere 1 st] tk_everywhere_ok
  obtain res where
    w: "worker_search_route tk_everywhere (r, 1) st =
           (Some res, update_progress True False
                        (save_progress (route_to_signature r)
                           (save_result_to_file res
                              (st\<lparr> queries := queries st @ segment_queries r 0 (length r - 1) \<rparr>))))"
    by blast
  have "snd (search_all_routes_parallel tk_everywhere [r] st) =
          snd (worker_search_route tk_everywhere (r, 1) st)"
    using w by (simp add: search_all_routes_parallel_def single_pending [OF assms] run_pending_def)
  with w show ?thesis by auto
qed


lemma first_run_state:
  "\<exists>res. snd first_run =
           update_progress True False
             (save_progress (route_to_signature baku_route)
                (save_result_to_file res
                   (fresh_optimizer\<lparr> queries := segment_queries baku_route 0 5 \<rparr>)))"
proof -
  have "length baku_route = 6" by (simp add: baku_route_def)
  with run_single_complete [of fresh_optimizer baku_route] show ?thesis
    by (simp add: first_run_def fresh_fields)
qed

text \<open>
  Claim C9, evaluated on the code: a first run over one route of six stops, every
  segment of which has a valid offer, records the signature and one result. In the
  next process \<open>load_existing_progress\<close> reads the signature back as a list of lists,
  \<open>tuple(sig)\<close> makes a tuple of lists, which is not hashable, and the handler resets
  the set of completed routes to empty: the route is pending again, its five segments
  are queried again and a second copy of its result is appended to the results file.
\<close>

theorem resume_lost_after_restart:
  "completed_routes (snd first_run) = [route_to_signature baku_route]
   \<and> completed_routes (restart (snd first_run)) = []
   \<and> pending_routes (restart (snd first_run)) [baku_route] = [(baku_route, 1)]
   \<and> length (queries (snd second_run)) = 5
   \<and> length (stored_results (snd first_run)) = 1
   \<and> length (stored_results (snd second_run)) = 2"
proof -
  have ne: "baku_route \<noteq> []" and len: "length baku_route = 6" by (simp_all add: baku_route_def)
  from first_run_state obtain res where
    st1: "snd first_run =
           update_progress True False
             (save_progress (route_to_signature baku_route)
                (save_result_to_file res
                   (fresh_optimizer\<lparr> queries := segment_queries baku_route 0 5 \<rparr>)))"
    by blast
  have c1: "completed_routes (snd first_run) = [route_to_signature baku_route]"
    by (simp add: st1 update_progress_def save_progress_def save_result_to_file_def fresh_fields Let_def)
  have p1: "progress_file (snd first_run) = Contents (map json_roundtrip [route_to_signature baku_route])"
    by (simp add: st1 completed_state_facts fresh_fields)
  have r1: "results_file (snd first_run) = Contents [res]"
    by (simp add: st1 completed_state_facts fresh_fields)
  have m1: "max_routes_to_search (snd first_run) = 20"
    by (simp add: st1 completed_state_facts fresh_fields)
  have c2: "completed_routes (restart (snd first_run)) = []"
    using reload_forgets [OF ne, of "[route_to_signature baku_route]"]
    by (simp add: restart_def init_optimizer_def p1)
  have f2: "max_routes_to_search (restart (snd first_run)) = 20" "queries (restart (snd first_run)) = []"
    "results_file (restart (snd first_run)) = Contents [res]"
    by (simp_all add: restart_def init_optimizer_def m1 r1)
  from run_single_complete [OF c2 f2(1), of baku_route] obtain res2 where
    st2: "snd second_run =
           update_progress True False
             (save_progress (route_to_signature baku_route)
                (save_result_to_file res2
                   (restart (snd first_run)\<lparr> queries := queries (restart (snd first_run))
                        @ segment_queries baku_route 0 (length baku_route - 1) \<rparr>)))"
    unfolding second_run_def by blast
  have q2: "length (queries (snd second_run)) = 5"
    by (simp add: st2 completed_state_facts f2 len length_segment_queries)
  have r2: "length (stored_results (snd second_run)) = 2"
    by (simp add: st2 completed_state_facts f2 stored_results_def)
  have r1': "length (stored_results (snd first_run)) = 1"
    by (simp add: r1 stored_results_def)
  from c1 c2 single_pending [OF c2 f2(1)] q2 r1' r2 show ?thesis by simp
qed

section \<open>The route enumerator\<close>

lemma continent_make_stop: "continent (make_stop cont ci) = cont"
  by (simp add: make_stop_def)

lemma available_continents: "map fst (get_continent_city_mapping ref) = map fst (eligible_countries ref)"
  by (simp add: get_continent_city_mapping_def split_def comp_def)

lemma build_route_continents:
  assumes "build_route cc attempt conts r used = Inr r'"
  shows "\<exists>ys. map continent r' = map continent r @ ys \<and> subseq ys conts"
  using assms
proof (induction conts arbitrary: r used)
  case Nil
  then show ?case by simp
next
  case (Cons cont rest)
  show ?case
  proof (cases "cont \<in> set used")
    case True
    with Cons.prems have "build_route cc attempt rest r used = Inr r'" by simp
    from Cons.IH [OF this] show ?thesis by (auto intro: subseq_Cons')
  next
    case False
    show ?thesis
    proof (cases "map_of cc cont")
      case None
      with False Cons.prems show ?thesis by simp
    next
      case (Some cities)
      show ?thesis
      proof (cases "cities = []")
        case True
        with False Some Cons.prems have "build_route cc attempt rest r used = Inr r'" by simp
        from Cons.IH [OF this] show ?thesis by (auto intro: subseq_Cons')
      next
        case ne: False
        with False Some Cons.prems
        have "build_route cc attempt rest (r @ [make_stop cont (select_city attempt cities)]) (cont # used) = Inr r'"
          by simp
        from Cons.IH [OF this] obtain ys where
          "map continent r' = map continent (r @ [make_stop cont (select_city attempt cities)]) @ ys"
          "subseq ys rest" by blast
        then have "map continent r' = map continent r @ (cont # ys)" "subseq (cont # ys) (cont # rest)"
          by (simp_all add: continent_make_stop)
        then show ?thesis by blast
      qed
    qed
  qed
qed

lemma full_route_continents:
  assumes "build_route cc attempt (take NUM_CONTINENTS conts) [] [] = Inr r" "length r = NUM_CONTINENTS"
  shows "map continent r = take NUM_CONTINENTS conts"
proof -
  from build_route_continents [OF assms(1)] obtain ys where
    ys: "map continent r = ys" "subseq ys (take NUM_CONTINENTS conts)" by auto
  then have "length ys = NUM_CONTINENTS" using assms(2) by auto
  moreover have "length (take NUM_CONTINENTS conts) \<le> NUM_CONTINENTS" by simp
  moreover have "length ys \<le> length (take NUM_CONTINENTS conts)" using ys(2) by (rule list_emb_length)
  ultimately have "length ys = length (take NUM_CONTINENTS conts)" by simp
  with ys(2) have "ys = take NUM_CONTINENTS conts" by (rule subseq_same_length)
  with ys(1) show ?thesis by simp
qed

lemma collect_routes_continents:
  assumes "collect_routes shuffle cc available attempts acc = Inr rs" "r \<in> set rs"
  shows "r \<in> set acc \<or> (\<exists>attempt. map continent r = take NUM_CONTINENTS (shuffle attempt available)
                                    \<and> length r = NUM_CONTINENTS)"
  using assms
proof (induction attempts arbitrary: acc)
  case Nil
  then show ?case by simp
next
  case (Cons attempt attempts)
  show ?case
  proof (cases "build_route cc attempt (take NUM_CONTINENTS (shuffle attempt available)) [] []")
    case (Inl e)
    with Cons.prems show ?thesis by simp
  next
    case (Inr r0)
    with Cons.prems have
      c: "collect_routes shuffle cc available attempts
            (if length r0 = NUM_CONTINENTS then acc @ [r0] else acc) = Inr rs"
      by simp
    from Cons.IH [OF c Cons.prems(2)] consider
      "r \<in> set (if length r0 = NUM_CONTINENTS then acc @ [r0] else acc)"
      | "\<exists>attempt. map continent r = take NUM_CONTINENTS (shuffle attempt available) \<and> length r = NUM_CONTINENTS"
      by blast
    then show ?thesis
    proof cases
      case 1
      show ?thesis
      proof (cases "r \<in> set acc")
        case True
        then show ?thesis by simp
      next
        case False
        with 1 have "r = r0" "length r0 = NUM_CONTINENTS" by (auto split: if_splits)
        with full_route_continents [OF Inr] show ?thesis by blast
      qed
    next
      case 2
      then show ?thesis by simp
    qed
  qed
qed

lemma set_unique_routes: "set (unique_routes rs seen) \<subseteq> set rs"
  by (induction rs seen rule: unique_routes.induct) auto

lemma sampled_route_continents:
  assumes "r \<in> set (routes_of (generate_optimal_routes shuffle ref))"
  shows "\<exists>attempt. map continent r = take NUM_CONTINENTS (shuffle attempt (map fst (eligible_countries ref)))
                   \<and> length r = NUM_CONTINENTS"
proof -
  let ?cc = "get_continent_city_mapping ref"
  from assms obtain all_routes where
    c: "collect_routes shuffle ?cc (map fst ?cc) [0..<MAX_ROUTES * 2] [] = Inr all_routes"
    and r: "r \<in> set (take MAX_ROUTES (sort_by_score (unique_routes all_routes [])))"
    by (auto simp: generate_optimal_routes_def routes_of_def Let_def split: if_splits sum.splits)
  from r have "r \<in> set (sort_by_score (unique_routes all_routes []))" by (rule in_set_takeD)
  then have "r \<in> set all_routes" using set_unique_routes by (auto simp: sort_by_score_def)
  from collect_routes_continents [OF c this] show ?thesis by (simp add: available_continents)
qed

lemma zipped_stops_continents:
  "length conts = length combination \<Longrightarrow> map continent (map2 make_stop conts combination) = conts"
  by (induction conts combination rule: list_induct2) (simp_all add: continent_make_stop)

lemma product_route_continents:
  assumes "combination \<in> set (product_lists (map snd cc))"
  shows "map continent (map2 make_stop (map fst cc) combination) = map fst cc"
proof -
  from assms have "length combination = length (map snd cc)" by (rule in_set_product_lists_length)
  then have "length (map fst cc) = length combination" by simp
  then show ?thesis by (rule zipped_stops_continents)
qed

lemma enumerated_route_continents:
  assumes "r \<in> set (routes_of (generate_all_possible_combinations shuffle ref))"
  shows "map continent r = map fst (eligible_countries ref)
         \<or> (\<exists>attempt. map continent r = take NUM_CONTINENTS (shuffle attempt (map fst (eligible_countries ref)))
                       \<and> length r = NUM_CONTINENTS)"
proof (cases "prod_list (map (\<lambda>(cont, cities). length cities) (get_continent_city_mapping ref)) > 100000")
  case True
  with assms have "r \<in> set (routes_of (generate_optimal_routes shuffle ref))"
    by (auto simp: generate_all_possible_combinations_def routes_of_def Let_def split: if_splits)
  from sampled_route_continents [OF this] show ?thesis by simp
next
  case False
  with assms obtain combination where
    c: "combination \<in> set (product_lists (map snd (get_continent_city_mapping ref)))"
    and r: "r = map2 make_stop (map fst (get_continent_city_mapping ref)) combination"
    by (auto simp: generate_all_possible_combinations_def routes_of_def Let_def sort_by_score_def
             split: if_splits)
  have "map continent r = map fst (get_continent_city_mapping ref)"
    unfolding r using c by (rule product_route_continents)
  then show ?thesis by (simp only: available_continents) simp
qed

lemma six_take_all:
  assumes "mset xs = mset ys" "length ys = NUM_CONTINENTS"
  shows "mset (take NUM_CONTINENTS xs) = mset ys"
proof -
  from assms(1) have "length xs = length ys" by (rule mset_eq_length)
  with assms show ?thesis by simp
qed

lemma utils_mapping:
  "get_continent_city_mapping utils = [
     (''Europe'', [
        eligible_city ''AZ'' ''Baku'', eligible_city ''BA'' ''Sarajevo'', eligible_city ''GE'' ''Tbilisi'',
        eligible_city ''ME'' ''Podgorica'', eligible_city ''MK'' ''Skopje'', eligible_city ''MD'' ''Chisinau'',
        eligible_city ''RS'' ''Belgrade'']),
     (''North America'', [
        eligible_city ''CA'' ''Toronto'', eligible_city ''CA'' ''Montreal'', eligible_city ''CA'' ''Vancouver'',
        eligible_city ''MX'' ''Mexico City'', eligible_city ''MX'' ''Cancun'']),
     (''South America'', [
        eligible_city ''AR'' ''Buenos Aires'', eligible_city ''BR'' ''Sao Paulo'', eligible_city ''BR'' ''Rio de Janeiro'',
        eligible_city ''CO'' ''Bogota'', eligible_city ''CO'' ''Medellin'']),
     (''Asia'', [
        eligible_city ''AE'' ''Dubai'', eligible_city ''AE'' ''Abu Dhabi'', eligible_city ''ID'' ''Jakarta'',
        eligible_city ''ID'' ''Bali'', eligible_city ''IN'' ''Delhi'', eligible_city ''IN'' ''Mumbai'', eligible_city ''QA'' ''Doha'',
        eligible_city ''MV'' ''Male'', eligible_city ''MY'' ''Kuala Lumpur'', eligible_city ''UZ'' ''Tashkent'',
        eligible_city ''SG'' ''Singapore'', eligible_city ''LK'' ''Colombo'', eligible_city ''TH'' ''Bangkok'',
        eligible_city ''TH'' ''Phuket'', eligible_city ''TR'' ''Istanbul'']),
     (''Africa'', [
        eligible_city ''MA'' ''Casablanca'', eligible_city ''MA'' ''Marrakech'', eligible_city ''ZA'' ''Johannesburg'',
        eligible_city ''ZA'' ''Cape Town'', eligible_city ''KE'' ''Nairobi'', eligible_city ''MU'' ''Port Louis'',
        eligible_city ''EG'' ''Cairo'', eligible_city ''EG'' ''Alexandria'']),
     (''Oceania'', [
        eligible_city ''AU'' ''Melbourne'', eligible_city ''AU'' ''Sydney''])
   ]"
  by code_simp

lemma product_lists_empty_component: "[] \<in> set xss \<Longrightarrow> product_lists xss = []"
  by (induction xss) auto

lemma prod_list_zero_factor: "(0::nat) \<in> set ns \<Longrightarrow> prod_list ns = 0"
  by (induction ns) auto

lemma baku_route_enumerated:
  "baku_route \<in> set (routes_of (generate_all_possible_combinations shuffle utils))"
proof -
  let ?comb = "[eligible_city ''AZ'' ''Baku'', eligible_city ''CA'' ''Toronto'',
                eligible_city ''AR'' ''Buenos Aires'', eligible_city ''AE'' ''Dubai'',
                eligible_city ''MA'' ''Casablanca'', eligible_city ''AU'' ''Melbourne'']"
  have "map (\<lambda>(cont, cities). length cities) (get_continent_city_mapping utils) = [7, 5, 5, 15, 8, 2]"
    by (simp add: utils_mapping)
  then have total: "prod_list (map (\<lambda>(cont, cities). length cities) (get_continent_city_mapping utils)) = 42000"
    by simp
  have len: "length (get_continent_city_mapping utils) = 6"
    by (simp add: utils_mapping)
  have "list_all2 (\<lambda>x ys. x \<in> set ys) ?comb (map snd (get_continent_city_mapping utils))"
    by (simp add: utils_mapping)
  then have c: "?comb \<in> set (product_lists (map snd (get_continent_city_mapping utils)))"
    by (simp add: product_lists_set)
  have b: "baku_route = map2 make_stop (map fst (get_continent_city_mapping utils)) ?comb"
    by (simp add: utils_mapping baku_route_def make_stop_def eligible_city_def)
  have "generate_all_possible_combinations shuffle utils =
          Inr (sort_by_score
                 (map (\<lambda>combination. map2 make_stop (map fst (get_continent_city_mapping utils)) combination)
                      (product_lists (map snd (get_continent_city_mapping utils)))))"
    by (simp add: generate_all_possible_combinations_def Let_def total len NUM_CONTINENTS_def
             del: product_lists.simps)
  then have "set (routes_of (generate_all_possible_combinations shuffle utils)) =
          (\<lambda>combination. map2 make_stop (map fst (get_continent_city_mapping utils)) combination)
             ` set (product_lists (map snd (get_continent_city_mapping utils)))"
    by (simp add: routes_of_def sort_by_score_def del: product_lists.simps)
  with b c show ?thesis by blast
qed

lemma length_mapping: "length (get_continent_city_mapping ref) = length (eligible_countries ref)"
  by (simp add: get_continent_city_mapping_def)

lemma build_route_returns:
  assumes "set conts \<subseteq> fst ` set cc"
  shows "\<exists>r'. build_route cc attempt conts r used = Inr r'"
  using assms
proof (induction conts arbitrary: r used)
  case Nil
  show ?case by simp
next
  case (Cons cont rest)
  then have "cont \<in> fst ` set cc" and rest: "set rest \<subseteq> fst ` set cc" by simp_all
  then obtain cities where c: "map_of cc cont = Some cities"
    by (metis map_of_eq_None_iff not_Some_eq)
  show ?case
    using Cons.IH [OF rest] c by simp
qed

lemma collect_routes_returns:
  assumes "\<forall>attempt. set (take NUM_CONTINENTS (shuffle attempt available)) \<subseteq> fst ` set cc"
  shows "\<exists>rs. collect_routes shuffle cc available attempts acc = Inr rs"
  using assms
proof (induction attempts arbitrary: acc)
  case Nil
  show ?case by simp
next
  case (Cons attempt attempts)
  from Cons.prems have "set (take NUM_CONTINENTS (shuffle attempt available)) \<subseteq> fst ` set cc"
    by blast
  from build_route_returns [OF this] obtain r0 where
    "build_route cc attempt (take NUM_CONTINENTS (shuffle attempt available)) [] [] = Inr r0"
    by blast
  with Cons.IH [OF Cons.prems] show ?case by simp
qed

lemma sampling_returns:
  assumes "\<forall>seed xs. mset (shuffle seed xs) = mset xs" "6 \<le> length (eligible_countries ref)"
  shows "\<exists>routes. generate_optimal_routes shuffle ref = Inr routes"
proof -
  let ?cc = "get_continent_city_mapping ref"
  have "set (take NUM_CONTINENTS (shuffle attempt (map fst ?cc))) \<subseteq> fst ` set ?cc" for attempt
  proof -
    have "set (take NUM_CONTINENTS (shuffle attempt (map fst ?cc))) \<subseteq> set (shuffle attempt (map fst ?cc))"
      by (rule set_take_subset)
    also have "\<dots> = set (map fst ?cc)"
      using assms(1) by (metis mset_eq_setD)
    finally show ?thesis by simp
  qed
  then have "\<forall>attempt. set (take NUM_CONTINENTS (shuffle attempt (map fst ?cc))) \<subseteq> fst ` set ?cc"
    by blast
  from collect_routes_returns [of shuffle "map fst ?cc" ?cc, OF this] obtain all_routes where
    "collect_routes shuffle ?cc (map fst ?cc) [0..<MAX_ROUTES * 2] [] = Inr all_routes"
    by blast
  moreover have "\<not> length (map fst ?cc) < NUM_CONTINENTS"
    using assms(2) by (simp add: length_mapping NUM_CONTINENTS_def)
  ultimately show ?thesis
    unfolding generate_optimal_routes_def Let_def by simp
qed

lemma utils_enumeration:
  "generate_all_possible_combinations shuffle utils =
     Inr (sort_by_score
            (map (\<lambda>combination. map2 make_stop (map fst (get_continent_city_mapping utils)) combination)
                 (product_lists (map snd (get_continent_city_mapping utils)))))"
proof -
  have "map (\<lambda>(cont, cities). length cities) (get_continent_city_mapping utils) = [7, 5, 5, 15, 8, 2]"
    by (simp add: utils_mapping)
  then have total: "prod_list (map (\<lambda>(cont, cities). length cities) (get_continent_city_mapping utils)) = 42000"
    by simp
  have len: "length (get_continent_city_mapping utils) = 6"
    by (simp add: utils_mapping)
  show ?thesis
    by (simp add: generate_all_possible_combinations_def Let_def total len NUM_CONTINENTS_def
             del: product_lists.simps)
qed

text \<open>
  Claim C7: with the reference data of the repository, the full cross product and the
  sampling generator (whatever arrangement the shuffle gives) both return a list of
  routes, and every route in it has six stops whose continents are, as a multiset,
  exactly the six required ones: none twice and none missing. The witness is a route of
  the cross product.
\<close>

theorem routes_cover_six_continents:
  assumes "\<forall>seed xs. mset (shuffle seed xs) = mset xs"
  shows "(\<exists>routes. generate_all_possible_combinations shuffle utils = Inr routes
            \<and> (\<forall>r \<in> set routes. mset (map continent r) = mset REQUIRED_CONTINENTS \<and> length r = 6))
       \<and> (\<exists>routes. generate_optimal_routes shuffle utils = Inr routes
            \<and> (\<forall>r \<in> set routes. mset (map continent r) = mset REQUIRED_CONTINENTS \<and> length r = 6))"
proof -
  have av: "map fst (eligible_countries utils) =
              [''Europe'', ''North America'', ''South America'', ''Asia'', ''Africa'', ''Oceania'']"
    by (simp add: utils_def get_eligible_country_list_def)
  have m: "mset (map fst (eligible_countries utils)) = mset REQUIRED_CONTINENTS"
    unfolding av REQUIRED_CONTINENTS_def by simp
  have l: "length (map fst (eligible_countries utils)) = NUM_CONTINENTS"
    unfolding av by (simp add: NUM_CONTINENTS_def)
  have six: "6 \<le> length (eligible_countries utils)"
    using l by (simp add: NUM_CONTINENTS_def)
  have sh: "mset (take NUM_CONTINENTS (shuffle attempt (map fst (eligible_countries utils))))
              = mset REQUIRED_CONTINENTS" for attempt
    using six_take_all [OF _ l, of "shuffle attempt (map fst (eligible_countries utils))"] assms m
    by simp
  have cover: "mset (map continent r) = mset REQUIRED_CONTINENTS \<and> length r = 6"
    if "map continent r = map fst (eligible_countries utils)
         \<or> (\<exists>attempt. map continent r = take NUM_CONTINENTS (shuffle attempt (map fst (eligible_countries utils))))"
    for r
  proof -
    from that have c: "mset (map continent r) = mset REQUIRED_CONTINENTS"
    proof
      assume e: "map continent r = map fst (eligible_countries utils)"
      show ?thesis unfolding e by (rule m)
    next
      assume "\<exists>attempt. map continent r = take NUM_CONTINENTS (shuffle attempt (map fst (eligible_countries utils)))"
      then obtain attempt where
        e: "map continent r = take NUM_CONTINENTS (shuffle attempt (map fst (eligible_countries utils)))"
        by blast
      show ?thesis unfolding e by (rule sh)
    qed
    then have "length (map continent r) = length REQUIRED_CONTINENTS" by (rule mset_eq_length)
    with c show ?thesis by (simp add: REQUIRED_CONTINENTS_def)
  qed
  from utils_enumeration [of shuffle] obtain routes where
    a: "generate_all_possible_combinations shuffle utils = Inr routes" by blast
  have "mset (map continent r) = mset REQUIRED_CONTINENTS \<and> length r = 6" if "r \<in> set routes" for r
  proof -
    from that a have "r \<in> set (routes_of (generate_all_possible_combinations shuffle utils))"
      by (simp add: routes_of_def)
    from enumerated_route_continents [OF this] show ?thesis by (intro cover) blast
  qed
  with a have 1: "\<exists>routes. generate_all_possible_combinations shuffle utils = Inr routes
            \<and> (\<forall>r \<in> set routes. mset (map continent r) = mset REQUIRED_CONTINENTS \<and> length r = 6)"
    by blast
  from sampling_returns [OF assms six] obtain sampled where
    b: "generate_optimal_routes shuffle utils = Inr sampled" by blast
  have "mset (map continent r) = mset REQUIRED_CONTINENTS \<and> length r = 6" if "r \<in> set sampled" for r
  proof -
    from that b have "r \<in> set (routes_of (generate_optimal_routes shuffle utils))"
      by (simp add: routes_of_def)
    from sampled_route_continents [OF this] show ?thesis by (intro cover) blast
  qed
  with b have 2: "\<exists>routes. generate_optimal_routes shuffle utils = Inr routes
            \<and> (\<forall>r \<in> set routes. mset (map continent r) = mset REQUIRED_CONTINENTS \<and> length r = 6)"
    by blast
  from 1 2 show ?thesis by blast
qed

theorem routes_cover_six_continents_witness:
  "baku_route \<in> set (routes_of (generate_all_possible_combinations keep_order utils))
   \<and> mset (map continent baku_route) = mset REQUIRED_CONTINENTS \<and> length baku_route = 6"
proof -
  have p: "\<forall>seed xs. mset (keep_order seed xs) = mset xs" by (simp add: keep_order_def)
  have b: "baku_route \<in> set (routes_of (generate_all_possible_combinations keep_order utils))"
    by (rule baku_route_enumerated)
  from routes_cover_six_continents [OF p] obtain routes where
    "generate_all_possible_combinations keep_order utils = Inr routes"
    "\<forall>r \<in> set routes. mset (map continent r) = mset REQUIRED_CONTINENTS \<and> length r = 6"
    by blast
  with b show ?thesis by (simp add: routes_of_def)
qed

lemma too_few_continents:
  assumes "length (eligible_countries ref) < 6"
  shows "generate_all_possible_combinations shuffle ref
           = Inl (ValueError (missing_continents (map fst (eligible_countries ref))))"
  using assms
  by (simp add: generate_all_possible_combinations_def Let_def available_continents length_mapping
                NUM_CONTINENTS_def)

lemma empty_continent_no_routes:
  assumes "6 \<le> length (eligible_countries ref)" "(cont, []) \<in> set (get_continent_city_mapping ref)"
  shows "generate_all_possible_combinations shuffle ref = Inr []"
proof -
  let ?cc = "get_continent_city_mapping ref"
  from assms(2) have "length (snd (cont, [])) \<in> (\<lambda>(cont, cities). length cities) ` set ?cc"
    by force
  then have "(0::nat) \<in> set (map (\<lambda>(cont, cities). length cities) ?cc)" by simp
  then have z: "prod_list (map (\<lambda>(cont, cities). length cities) ?cc) = 0"
    by (rule prod_list_zero_factor)
  from assms(2) have "[] \<in> set (map snd ?cc)" by force
  then have e: "product_lists (map snd ?cc) = []" by (rule product_lists_empty_component)
  have l: "\<not> length (map fst ?cc) < NUM_CONTINENTS"
    using assms(1) by (simp add: length_mapping NUM_CONTINENTS_def)
  show ?thesis
    unfolding generate_all_possible_combinations_def Let_def
    using l by (simp add: z e sort_by_score_def del: product_lists.simps)
qed

lemma no_oceania_cities: "(''Oceania'', []) \<in> set (get_continent_city_mapping no_oceania)"
  by code_simp

text \<open>
  Claim C5, as stated: a required continent without an eligible city makes the
  enumeration fail with an error. \<open>get_continent_city_mapping\<close> creates the key of every
  listed continent before it looks for cities, and the guard counts keys: with Australia
  out of the easy-visa set, Oceania has no city, the guard sees six continents, the
  cross product is empty and the enumerator returns the empty list of routes.
\<close>

theorem empty_continent_counterexample:
  "(''Oceania'', []) \<in> set (get_continent_city_mapping no_oceania)
   \<and> ''Oceania'' \<in> set REQUIRED_CONTINENTS
   \<and> generate_all_possible_combinations keep_order no_oceania = Inr []"
proof -
  have "6 \<le> length (eligible_countries no_oceania)"
    by (simp add: no_oceania_def utils_def get_eligible_country_list_def)
  from empty_continent_no_routes [OF this no_oceania_cities] no_oceania_cities
  show ?thesis by (simp add: REQUIRED_CONTINENTS_def)
qed

text \<open>
  Claim C5, amended: the enumeration fails with an error exactly for reference data that
  lists fewer than six continents (the error names the required continents that are not
  listed); when six or more are listed and one of them has no eligible city after the
  restriction to easy-visa countries, it raises nothing and returns the empty list.
\<close>

theorem error_only_for_missing_continent:
  "(length (eligible_countries ref) < 6 \<longrightarrow>
      generate_all_possible_combinations shuffle ref
        = Inl (ValueError (missing_continents (map fst (eligible_countries ref)))))
   \<and> (6 \<le> length (eligible_countries ref) \<and> (cont, []) \<in> set (get_continent_city_mapping ref) \<longrightarrow>
        generate_all_possible_combinations shuffle ref = Inr [])"
  using too_few_continents empty_continent_no_routes by blast

theorem error_only_for_missing_continent_witness:
  "length (eligible_countries five_continents) < 6
   \<and> generate_all_possible_combinations keep_order five_continents = Inl (ValueError [''Oceania''])
   \<and> 6 \<le> length (eligible_countries no_oceania)
   \<and> (''Oceania'', []) \<in> set (get_continent_city_mapping no_oceania)
   \<and> generate_all_possible_combinations keep_order no_oceania = Inr []"
proof -
  have f: "length (eligible_countries five_continents) < 6"
    by (simp add: five_continents_def utils_def get_eligible_country_list_def)
  have m: "missing_continents (map fst (eligible_countries five_continents)) = [''Oceania'']"
    by (simp add: five_continents_def utils_def get_eligible_country_list_def
                  missing_continents_def REQUIRED_CONTINENTS_def)
  have s: "6 \<le> length (eligible_countries no_oceania)"
    by (simp add: no_oceania_def utils_def get_eligible_country_list_def)
  from error_only_for_missing_continent [of five_continents keep_order "''Oceania''"]
       error_only_for_missing_continent [of no_oceania keep_order "''Oceania''"]
       f m s no_oceania_cities
  show ?thesis by simp
qed

end
